theory Spec2Isabelle
  imports Complex_Main
begin

section \<open>Checkpoint and reload input/output of SPHinXsys (io_base.cpp)\<close>

text \<open>
  The development embeds \<^verbatim>\<open>src/shared/io_system/io_base.cpp\<close>: the restart
  checkpoint writer and reader \<^verbatim>\<open>RestartIO\<close>, the particle reload writer and
  reader \<^verbatim>\<open>ReloadParticleIO\<close> and the time token of \<^verbatim>\<open>BaseIO\<close>.
  The file system, the standard output and the global physical time are fields of an
  explicit state; \<^verbatim>\<open>exit(1)\<close> is an outcome value.
\<close>

subsection \<open>Characters and decimal numerals of the stream library\<close>

definition digit_char :: "nat \<Rightarrow> char" where
  "digit_char d = ''0123456789'' ! d"

definition digit_val :: "char \<Rightarrow> nat" where
  "digit_val c = of_char c - 48"

definition isdigit :: "char \<Rightarrow> bool" where
  "isdigit c = (48 \<le> (of_char c :: nat) \<and> (of_char c :: nat) \<le> 57)"

text \<open>The white space of the C locale: space, and the characters 9 to 13.\<close>

definition isspace :: "char \<Rightarrow> bool" where
  "isspace c = ((of_char c :: nat) = 32 \<or> (9 \<le> (of_char c :: nat) \<and> (of_char c :: nat) \<le> 13))"

definition newline :: char where
  "newline = CHR 0x0A"

text \<open>\<^verbatim>\<open>operator<<\<close> on an unsigned integer: its decimal digits, most significant first.\<close>

fun decimal :: "nat \<Rightarrow> string" where
  "decimal n = (if n < 10 then [digit_char n]
                else decimal (n div 10) @ [digit_char (n mod 10)])"

declare decimal.simps [simp del]

text \<open>The value of a digit string, as the extraction operators accumulate it.\<close>

definition digits_val :: "string \<Rightarrow> nat" where
  "digits_val s = foldl (\<lambda>a c. 10 * a + digit_val c) 0 s"

text \<open>\<^verbatim>\<open>std::setw(W) << std::setfill('0')\<close>: fill on the left up to the width,
  never cutting the text.\<close>

definition zero_fill :: "nat \<Rightarrow> string \<Rightarrow> string" where
  "zero_fill W s = replicate (W - length s) CHR ''0'' @ s"

text \<open>
  Modelled from the spec: \<^verbatim>\<open>padValueWithZeros\<close> is declared in io_base.h, which is
  not among the sources, and so is its field width. The spec's padding rule: the decimal
  string of an unsigned index, left-padded with the character 0 to the configured width
  \<open>W\<close>; an index with more than \<open>W\<close> digits keeps its full representation. The
  width is the first argument of every operation that builds a token.
\<close>

definition padValueWithZeros :: "nat \<Rightarrow> nat \<Rightarrow> string" where
  "padValueWithZeros W v = zero_fill W (decimal v)"

subsection \<open>Real numbers on streams\<close>

text \<open>
  \<^verbatim>\<open>Real\<close> is a binary floating-point type in the source. The model keeps the
  exact rational value a finite \<^verbatim>\<open>Real\<close> holds; the rounding of floating-point
  arithmetic and the values that are not numbers are outside the model.
\<close>

type_synonym Real = rat

text \<open>Rounding to the nearest integer, a tie going to the even neighbour, which is what
  the formatted output does in the default rounding mode.\<close>

definition round_half_even :: "rat \<Rightarrow> int" where
  "round_half_even x =
     (let f = \<lfloor>x\<rfloor>; r = x - of_int f
      in if r < 1 / 2 then f
         else if 1 / 2 < r then f + 1
         else if even f then f else f + 1)"

text \<open>\<^verbatim>\<open>out << std::fixed << std::setprecision(9) << x\<close>: sign, integer digits,
  a point and exactly nine fractional digits.\<close>

definition ostream_fixed9 :: "Real \<Rightarrow> string" where
  "ostream_fixed9 x =
     (let n = nat (round_half_even (\<bar>x\<bar> * 10 ^ 9))
      in (if x < 0 then ''-'' else '''')
         @ decimal (n div 10 ^ 9) @ ''.'' @ zero_fill 9 (decimal (n mod 10 ^ 9)))"

text \<open>
  \<^verbatim>\<open>in >> x\<close> for a \<^verbatim>\<open>Real\<close>: leading white space is skipped, then an optional
  sign, digits, and an optional point with more digits are read; the text after them is
  left in the stream. With no digit at all the extraction fails and stores zero. The
  exponent part of the grammar is not modelled: no file written by this program has one.
\<close>

definition istream_Real :: "string \<Rightarrow> Real" where
  "istream_Real s =
     (let s1 = dropWhile isspace s;
          neg = (s1 \<noteq> [] \<and> hd s1 = CHR ''-'');
          s2 = (if s1 \<noteq> [] \<and> (hd s1 = CHR ''-'' \<or> hd s1 = CHR ''+'') then tl s1 else s1);
          ip = takeWhile isdigit s2;
          s3 = dropWhile isdigit s2;
          fp = (if s3 \<noteq> [] \<and> hd s3 = CHR ''.'' then takeWhile isdigit (tl s3) else [])
      in if ip = [] \<and> fp = [] then 0
         else (if neg then - 1 else 1) *
              (of_nat (digits_val ip) + of_nat (digits_val fp) / 10 ^ length fp))"

subsection \<open>Bodies, files and the state of the process\<close>

text \<open>
  Modelled from the spec: the class \<^verbatim>\<open>SPHBody\<close> is not among the sources. The spec
  describes a body as independently named, with a state that is opaque to this component
  and that the body itself serialises to and restores from a file path.
\<close>

record 'st SPHBody =
  getName :: string
  particles :: 'st

text \<open>A file holds either text or the snapshot a body wrote.\<close>

datatype 'st file_content = Dat string | Xml 'st

datatype fs_op = Remove | Write | Read

record 'st world =
  physical_time :: Real
  files :: "string \<rightharpoonup> 'st file_content"
  cout :: string
  fs_log :: "(fs_op \<times> string) list"

datatype 'a outcome = Returned 'a | Exited nat

definition fs_exists :: "string \<Rightarrow> 'st world \<Rightarrow> bool" where
  "fs_exists path w = (files w path \<noteq> None)"

definition fs_remove :: "string \<Rightarrow> 'st world \<Rightarrow> 'st world" where
  "fs_remove path w =
     w\<lparr>files := (files w)(path := None), fs_log := fs_log w @ [(Remove, path)]\<rparr>"

text \<open>An output stream opened with \<^verbatim>\<open>std::ios::app\<close>, one insertion, closed: the
  text goes after the text the file already holds. A path that holds a snapshot has no
  text to keep; the only caller removes the file before it opens the stream.\<close>

definition ofstream_app :: "string \<Rightarrow> string \<Rightarrow> 'st world \<Rightarrow> 'st world" where
  "ofstream_app path txt w =
     w\<lparr>files := (files w)(path \<mapsto>
            Dat ((case files w path of Some (Dat old) \<Rightarrow> old | _ \<Rightarrow> []) @ txt)),
       fs_log := fs_log w @ [(Write, path)]\<rparr>"

text \<open>An input stream on a file, one extraction of a \<^verbatim>\<open>Real\<close>, closed.\<close>

definition ifstream_Real :: "string \<Rightarrow> 'st world \<Rightarrow> Real \<times> 'st world" where
  "ifstream_Real path w =
     (istream_Real (case files w path of Some (Dat s) \<Rightarrow> s | _ \<Rightarrow> []),
      w\<lparr>fs_log := fs_log w @ [(Read, path)]\<rparr>)"

definition cout_print :: "string \<Rightarrow> 'st world \<Rightarrow> 'st world" where
  "cout_print txt w = w\<lparr>cout := cout w @ txt\<rparr>"

text \<open>
  Modelled from the spec: the four serialisation capabilities of a body are defined
  outside the sources. The spec's words: each takes a file path and is otherwise opaque;
  after "serialize" the file at the path is the snapshot of the body's state, and
  "deserialize" recovers the state from the snapshot at the path. A path that holds no
  snapshot leaves the body as it is; the callers test for existence first.
\<close>

definition writeParticlesToXmlForRestart :: "'st SPHBody \<Rightarrow> string \<Rightarrow> 'st world \<Rightarrow> 'st world" where
  "writeParticlesToXmlForRestart body path w =
     w\<lparr>files := (files w)(path \<mapsto> Xml (particles body)),
       fs_log := fs_log w @ [(Write, path)]\<rparr>"

definition readParticlesFromXmlForRestart ::
    "'st SPHBody \<Rightarrow> string \<Rightarrow> 'st world \<Rightarrow> 'st SPHBody \<times> 'st world" where
  "readParticlesFromXmlForRestart body path w =
     (body\<lparr>particles := (case files w path of Some (Xml s) \<Rightarrow> s | _ \<Rightarrow> particles body)\<rparr>,
      w\<lparr>fs_log := fs_log w @ [(Read, path)]\<rparr>)"

definition writeToXmlForReloadParticle :: "'st SPHBody \<Rightarrow> string \<Rightarrow> 'st world \<Rightarrow> 'st world" where
  "writeToXmlForReloadParticle body path w =
     w\<lparr>files := (files w)(path \<mapsto> Xml (particles body)),
       fs_log := fs_log w @ [(Write, path)]\<rparr>"

definition readFromXmlForReloadParticle ::
    "'st SPHBody \<Rightarrow> string \<Rightarrow> 'st world \<Rightarrow> 'st SPHBody \<times> 'st world" where
  "readFromXmlForReloadParticle body path w =
     (body\<lparr>particles := (case files w path of Some (Xml s) \<Rightarrow> s | _ \<Rightarrow> particles body)\<rparr>,
      w\<lparr>fs_log := fs_log w @ [(Read, path)]\<rparr>)"

text \<open>The folders of \<^verbatim>\<open>IOEnvironment\<close> that this file reads.\<close>

record IOEnvironment =
  restart_folder :: string
  reload_folder :: string

text \<open>The expansion of \<^verbatim>\<open>__FILE__\<close>, which depends on how the compiler was called.\<close>

definition source_file :: string where
  "source_file = ''io_base.cpp''"

subsection \<open>BaseIO\<close>

text \<open>The conversion of a \<^verbatim>\<open>Real\<close> to \<^verbatim>\<open>int\<close> drops the fraction, towards
  zero.\<close>

definition truncate_Real :: "Real \<Rightarrow> int" where
  "truncate_Real x = (if 0 \<le> x then \<lfloor>x\<rfloor> else \<lceil>x\<rceil>)"

text \<open>
  \<^verbatim>\<open>BaseIO::convertPhysicalTimeToString\<close>. The body reads the global
  \<^verbatim>\<open>physical_time_\<close>; its parameter is not used. The result is \<open>None\<close> where the
  source leaves it open: a value outside the range of \<^verbatim>\<open>int\<close> (the conversion is
  undefined there) and a negative index (the padding rule is stated for unsigned indices).
\<close>

definition convertPhysicalTimeToString :: "nat \<Rightarrow> 'st world \<Rightarrow> Real \<Rightarrow> string option" where
  "convertPhysicalTimeToString W w convertPhysicalTimeToStream =
     (let i_time = truncate_Real (physical_time w * 1000000)
      in if 0 \<le> i_time \<and> i_time < 2 ^ 31 then Some (padValueWithZeros W (nat i_time))
         else None)"

subsection \<open>RestartIO\<close>

text \<open>
  \<^verbatim>\<open>RestartIO\<close> and \<^verbatim>\<open>ReloadParticleIO\<close> both hold the vector of bodies and
  the vector of file names; a parent record holds the two members. The vector of body
  pointers is kept as the list of the bodies pointed to, which a read updates in place.
  Members and globals are named as in the source, without the underscore that ends them
  there.
\<close>

record 'st BodiesIO =
  bodies :: "'st SPHBody list"
  file_names :: "string list"

record 'st RestartIO = "'st BodiesIO" +
  overall_file_path :: string

text \<open>The constructor reads \<^verbatim>\<open>bodies[0]\<close> to find the system, which is undefined
  on an empty vector: no object is built then.\<close>

definition RestartIO :: "IOEnvironment \<Rightarrow> 'st SPHBody list \<Rightarrow> 'st RestartIO option" where
  "RestartIO io_environment body_vector =
     (if body_vector = [] then None
      else Some \<lparr>bodies = body_vector,
                 file_names = map (\<lambda>body. restart_folder io_environment @ ''/''
                                      @ getName body @ ''_rst_'') body_vector,
                 overall_file_path = restart_folder io_environment @ ''/Restart_time_''\<rparr>)"

function RestartIO_writeToFile_loop ::
    "nat \<Rightarrow> 'st RestartIO \<Rightarrow> nat \<Rightarrow> nat \<Rightarrow> 'st world \<Rightarrow> 'st world" where
  "RestartIO_writeToFile_loop W io iteration_step i w =
     (if i < length (bodies io) then
        let filefullpath = file_names io ! i @ padValueWithZeros W iteration_step @ ''.xml'';
            w1 = (if fs_exists filefullpath w then fs_remove filefullpath w else w);
            w2 = writeParticlesToXmlForRestart (bodies io ! i) filefullpath w1
        in RestartIO_writeToFile_loop W io iteration_step (Suc i) w2
      else w)"
  by pat_completeness auto
termination
  by (relation "measure (\<lambda>(W, io, iteration_step, i, w). length (bodies io) - i)") auto

declare RestartIO_writeToFile_loop.simps [simp del]

definition RestartIO_writeToFile :: "nat \<Rightarrow> 'st RestartIO \<Rightarrow> nat \<Rightarrow> 'st world \<Rightarrow> 'st world" where
  "RestartIO_writeToFile W io iteration_step w =
     (let overall_filefullpath =
            overall_file_path io @ padValueWithZeros W iteration_step @ ''.dat'';
          w1 = (if fs_exists overall_filefullpath w then fs_remove overall_filefullpath w else w);
          w2 = ofstream_app overall_filefullpath
                 (ostream_fixed9 (physical_time w1) @ ''   '' @ [newline]) w1
      in RestartIO_writeToFile_loop W io iteration_step 0 w2)"

definition missing_file_message :: "string \<Rightarrow> nat \<Rightarrow> string" where
  "missing_file_message path line =
     [newline] @ '' Error: the input file:'' @ path @ '' is not exists'' @ [newline]
     @ source_file @ '':'' @ decimal line @ [newline]"

definition RestartIO_readRestartTime ::
    "nat \<Rightarrow> 'st RestartIO \<Rightarrow> nat \<Rightarrow> 'st world \<Rightarrow> Real outcome \<times> 'st world" where
  "RestartIO_readRestartTime W io restart_step w =
     (let w0 = cout_print ([newline] @ '' Reading restart files from the restart step = ''
                           @ decimal restart_step @ [newline]) w;
          overall_filefullpath =
            overall_file_path io @ padValueWithZeros W restart_step @ ''.dat''
      in if \<not> fs_exists overall_filefullpath w0
         then (Exited 1, cout_print (missing_file_message overall_filefullpath 79) w0)
         else (case ifstream_Real overall_filefullpath w0 of
                 (restart_time, w1) \<Rightarrow> (Returned restart_time, w1)))"

function RestartIO_readFromFile_loop ::
    "nat \<Rightarrow> 'st RestartIO \<Rightarrow> nat \<Rightarrow> nat \<Rightarrow> 'st world
       \<Rightarrow> unit outcome \<times> 'st RestartIO \<times> 'st world" where
  "RestartIO_readFromFile_loop W io restart_step i w =
     (if i < length (bodies io) then
        let filefullpath = file_names io ! i @ padValueWithZeros W restart_step @ ''.xml''
        in if \<not> fs_exists filefullpath w
           then (Exited 1, io, cout_print (missing_file_message filefullpath 99) w)
           else (case readParticlesFromXmlForRestart (bodies io ! i) filefullpath w of
                   (body, w1) \<Rightarrow>
                     RestartIO_readFromFile_loop W (io\<lparr>bodies := (bodies io)[i := body]\<rparr>)
                       restart_step (Suc i) w1)
      else (Returned (), io, w))"
  by pat_completeness auto
termination
  by (relation "measure (\<lambda>(W, io, restart_step, i, w). length (bodies io) - i)") auto

declare RestartIO_readFromFile_loop.simps [simp del]

definition RestartIO_readFromFile ::
    "nat \<Rightarrow> 'st RestartIO \<Rightarrow> nat \<Rightarrow> 'st world \<Rightarrow> unit outcome \<times> 'st RestartIO \<times> 'st world" where
  "RestartIO_readFromFile W io restart_step w = RestartIO_readFromFile_loop W io restart_step 0 w"

subsection \<open>ReloadParticleIO\<close>

type_synonym 'st ReloadParticleIO = "'st BodiesIO"

definition ReloadParticleIO :: "IOEnvironment \<Rightarrow> 'st SPHBody list \<Rightarrow> 'st ReloadParticleIO option" where
  "ReloadParticleIO io_environment body_vector =
     (if body_vector = [] then None
      else Some \<lparr>bodies = body_vector,
                 file_names = map (\<lambda>body. reload_folder io_environment @ ''/''
                                      @ getName body @ ''_rld.xml'') body_vector\<rparr>)"

definition ReloadParticleIO_named ::
    "IOEnvironment \<Rightarrow> 'st SPHBody \<Rightarrow> string \<Rightarrow> 'st ReloadParticleIO" where
  "ReloadParticleIO_named io_environment sph_body given_body_name =
     \<lparr>bodies = [sph_body],
      file_names = [] @ [reload_folder io_environment @ ''/'' @ given_body_name @ ''_rld.xml'']\<rparr>"

definition ReloadParticleIO_body :: "IOEnvironment \<Rightarrow> 'st SPHBody \<Rightarrow> 'st ReloadParticleIO" where
  "ReloadParticleIO_body io_environment sph_body =
     ReloadParticleIO_named io_environment sph_body (getName sph_body)"

function ReloadParticleIO_writeToFile_loop ::
    "'st ReloadParticleIO \<Rightarrow> nat \<Rightarrow> nat \<Rightarrow> 'st world \<Rightarrow> 'st world" where
  "ReloadParticleIO_writeToFile_loop io iteration_step i w =
     (if i < length (bodies io) then
        let filefullpath = file_names io ! i;
            w1 = (if fs_exists filefullpath w then fs_remove filefullpath w else w);
            w2 = writeToXmlForReloadParticle (bodies io ! i) filefullpath w1
        in ReloadParticleIO_writeToFile_loop io iteration_step (Suc i) w2
      else w)"
  by pat_completeness auto
termination
  by (relation "measure (\<lambda>(io, iteration_step, i, w). length (bodies io) - i)") auto

declare ReloadParticleIO_writeToFile_loop.simps [simp del]

definition ReloadParticleIO_writeToFile ::
    "'st ReloadParticleIO \<Rightarrow> nat \<Rightarrow> 'st world \<Rightarrow> 'st world" where
  "ReloadParticleIO_writeToFile io iteration_step w =
     ReloadParticleIO_writeToFile_loop io iteration_step 0 w"

function ReloadParticleIO_readFromFile_loop ::
    "'st ReloadParticleIO \<Rightarrow> nat \<Rightarrow> nat \<Rightarrow> 'st world
       \<Rightarrow> unit outcome \<times> 'st ReloadParticleIO \<times> 'st world" where
  "ReloadParticleIO_readFromFile_loop io restart_step i w =
     (if i < length (bodies io) then
        let filefullpath = file_names io ! i
        in if \<not> fs_exists filefullpath w
           then (Exited 1, io, cout_print (missing_file_message filefullpath 148) w)
           else (case readFromXmlForReloadParticle (bodies io ! i) filefullpath w of
                   (body, w1) \<Rightarrow>
                     ReloadParticleIO_readFromFile_loop (io\<lparr>bodies := (bodies io)[i := body]\<rparr>)
                       restart_step (Suc i) w1)
      else (Returned (), io, w))"
  by pat_completeness auto
termination
  by (relation "measure (\<lambda>(io, restart_step, i, w). length (bodies io) - i)") auto

declare ReloadParticleIO_readFromFile_loop.simps [simp del]

definition ReloadParticleIO_readFromFile ::
    "'st ReloadParticleIO \<Rightarrow> nat \<Rightarrow> 'st world
       \<Rightarrow> unit outcome \<times> 'st ReloadParticleIO \<times> 'st world" where
  "ReloadParticleIO_readFromFile io restart_step w =
     ReloadParticleIO_readFromFile_loop io restart_step 0
       (cout_print ([newline] @ '' Reloading particles from files.'' @ [newline]) w)"

subsection \<open>Definitions that follow the spec's words\<close>

text \<open>
  The spec's time token, for comparison with \<open>convertPhysicalTimeToString\<close>: the index
  is the floor of the argument times one million, padded by the padding rule.
\<close>

definition spec_time_token :: "nat \<Rightarrow> Real \<Rightarrow> string" where
  "spec_time_token W t = padValueWithZeros W (nat \<lfloor>t * 1000000\<rfloor>)"


subsection \<open>Paths and values that the theorems name\<close>

text \<open>The two path expressions of \<open>RestartIO\<close>, as the three operations build them.\<close>

definition restart_overall_path :: "nat \<Rightarrow> 'st RestartIO \<Rightarrow> nat \<Rightarrow> string" where
  "restart_overall_path W io k = overall_file_path io @ padValueWithZeros W k @ ''.dat''"

definition restart_body_path :: "nat \<Rightarrow> 'st RestartIO \<Rightarrow> nat \<Rightarrow> nat \<Rightarrow> string" where
  "restart_body_path W io k i = file_names io ! i @ padValueWithZeros W k @ ''.xml''"

text \<open>The body at position \<open>i\<close> after it has read its checkpoint file.\<close>

definition restored_body :: "nat \<Rightarrow> 'st RestartIO \<Rightarrow> nat \<Rightarrow> 'st world \<Rightarrow> nat \<Rightarrow> 'st SPHBody" where
  "restored_body W io k w i =
     fst (readParticlesFromXmlForRestart (bodies io ! i) (restart_body_path W io k i) w)"

text \<open>A number rounded to nine decimal digits, a tie going to the even last digit.\<close>

definition nine_digits :: "Real \<Rightarrow> Real" where
  "nine_digits x =
     (if x < 0 then - 1 else 1) * of_nat (nat (round_half_even (\<bar>x\<bar> * 10 ^ 9))) / 10 ^ 9"

text \<open>The body at position \<open>i\<close> after it has read its reload file.\<close>

definition reloaded_body :: "'st ReloadParticleIO \<Rightarrow> 'st world \<Rightarrow> nat \<Rightarrow> 'st SPHBody" where
  "reloaded_body io w i =
     fst (readFromXmlForReloadParticle (bodies io ! i) (file_names io ! i) w)"

text \<open>The paths an event log writes to, in order.\<close>

definition written_paths :: "(fs_op \<times> string) list \<Rightarrow> string list" where
  "written_paths l = map snd (filter (\<lambda>e. fst e = Write) l)"

text \<open>Concrete objects for the examples: two folders, bodies named A and B, the
  objects the constructor builds over them, and a folder that holds A's file only.\<close>

definition world0 :: "nat world" where
  "world0 = \<lparr>physical_time = 0, files = Map.empty, cout = [], fs_log = []\<rparr>"

definition env0 :: IOEnvironment where
  "env0 = \<lparr>restart_folder = ''restart'', reload_folder = ''reload''\<rparr>"

definition bodyA :: "nat \<Rightarrow> nat SPHBody" where
  "bodyA s = \<lparr>getName = ''A'', particles = s\<rparr>"

definition bodyB :: "nat \<Rightarrow> nat SPHBody" where
  "bodyB s = \<lparr>getName = ''B'', particles = s\<rparr>"

definition io_AB :: "nat RestartIO" where
  "io_AB = \<lparr>bodies = [bodyA 1, bodyB 2],
            file_names = [''restart/A_rst_'', ''restart/B_rst_''],
            overall_file_path = ''restart/Restart_time_''\<rparr>"

definition io_AA :: "nat RestartIO" where
  "io_AA = \<lparr>bodies = [bodyA 1, bodyA 2],
            file_names = [''restart/A_rst_'', ''restart/A_rst_''],
            overall_file_path = ''restart/Restart_time_''\<rparr>"

definition world_A :: "nat world" where
  "world_A = world0\<lparr>files := [''restart/A_rst_000005.xml'' \<mapsto> Xml 7]\<rparr>"

definition rld_AB :: "nat ReloadParticleIO" where
  "rld_AB = \<lparr>bodies = [bodyA 1, bodyB 2],
             file_names = [''reload/A_rld.xml'', ''reload/B_rld.xml'']\<rparr>"

section \<open>Decimal numerals and the padding rule\<close>

lemma digit_cases:
  "d < 10 \<Longrightarrow> d = 0 \<or> d = 1 \<or> d = 2 \<or> d = 3 \<or> d = 4 \<or> d = 5 \<or> d = 6 \<or> d = 7 \<or> d = 8 \<or> d = (9::nat)"
  by arith

lemma digit_val_digit_char: "d < 10 \<Longrightarrow> digit_val (digit_char d) = d"
  using digit_cases [of d] by (auto simp: digit_val_def digit_char_def)

lemma isdigit_digit_char: "d < 10 \<Longrightarrow> isdigit (digit_char d)"
  using digit_cases [of d] by (auto simp: isdigit_def digit_char_def)

lemma isdigit_decimal: "c \<in> set (decimal n) \<Longrightarrow> isdigit c"
proof (induction n arbitrary: c rule: decimal.induct)
  case (1 n)
  show ?case
  proof (cases "n < 10")
    case True
    with "1.prems" show ?thesis
      by (simp add: decimal.simps [of n] isdigit_digit_char)
  next
    case False
    with "1.prems" "1.IH" show ?thesis
      by (auto simp: decimal.simps [of n] isdigit_digit_char)
  qed
qed

lemma digits_val_snoc: "digits_val (s @ [c]) = 10 * digits_val s + digit_val c"
  by (simp add: digits_val_def)

lemma digits_val_decimal: "digits_val (decimal n) = n"
proof (induction n rule: decimal.induct)
  case (1 n)
  show ?case
  proof (cases "n < 10")
    case True
    then show ?thesis
      by (simp add: decimal.simps [of n] digits_val_def digit_val_digit_char)
  next
    case False
    with "1.IH" show ?thesis
      by (simp add: decimal.simps [of n] digits_val_snoc digit_val_digit_char)
  qed
qed

lemma decimal_not_Nil: "decimal n \<noteq> []"
  by (subst decimal.simps) simp

lemma length_decimal_le: "0 < k \<Longrightarrow> n < 10 ^ k \<Longrightarrow> length (decimal n) \<le> k"
proof (induction n arbitrary: k rule: decimal.induct)
  case (1 n)
  show ?case
  proof (cases "n < 10")
    case True
    with "1.prems" show ?thesis
      by (simp add: decimal.simps [of n])
  next
    case False
    obtain k' where k: "k = Suc k'" using "1.prems" by (cases k) auto
    have "k' \<noteq> 0" using False "1.prems" k by (cases k') auto
    then have k'pos: "0 < k'" by simp
    define m :: nat where "m = 10 ^ k'"
    have "n < 10 * m" using "1.prems" k by (simp add: m_def)
    then have "n div 10 < m" by arith
    then have "n div 10 < 10 ^ k'" by (simp add: m_def)
    then have "length (decimal (n div 10)) \<le> k'"
      using "1.IH" [OF False k'pos] by simp
    with False k show ?thesis
      by (simp add: decimal.simps [of n])
  qed
qed

lemma digits_val_zeros: "digits_val (replicate m CHR ''0'' @ s) = digits_val s"
  by (induction m) (simp_all add: digits_val_def digit_val_def)

lemma digits_val_zero_fill: "digits_val (zero_fill W s) = digits_val s"
  by (simp add: zero_fill_def digits_val_zeros)

lemma length_zero_fill: "length (zero_fill W s) = max W (length s)"
  by (simp add: zero_fill_def)

lemma isdigit_zero_fill: "\<forall>c \<in> set s. isdigit c \<Longrightarrow> c \<in> set (zero_fill W s) \<Longrightarrow> isdigit c"
  by (auto simp: zero_fill_def isdigit_def)

text \<open>
  Claim C8. For every unsigned index \<open>i\<close> the padded token has at least \<open>W\<close>
  characters; two indices below \<open>10 ^ W\<close> with the same token are equal; and an index
  whose decimal numeral has more than \<open>W\<close> digits is rendered by that numeral, uncut.
\<close>

theorem padValueWithZeros_width_injective:
  "W \<le> length (padValueWithZeros W i)
   \<and> (i < 10 ^ W \<and> j < 10 ^ W \<and> padValueWithZeros W i = padValueWithZeros W j \<longrightarrow> i = j)
   \<and> (W < length (decimal i) \<longrightarrow> padValueWithZeros W i = decimal i)"
proof -
  have "i = j" if "padValueWithZeros W i = padValueWithZeros W j"
  proof -
    from that have "digits_val (padValueWithZeros W i) = digits_val (padValueWithZeros W j)"
      by simp
    then show ?thesis
      by (simp add: padValueWithZeros_def digits_val_zero_fill digits_val_decimal)
  qed
  then show ?thesis
    by (auto simp: padValueWithZeros_def zero_fill_def)
qed

theorem padValueWithZeros_width_injective_witness:
  "6 \<le> length (padValueWithZeros 6 5)
   \<and> (5::nat) < 10 ^ 6 \<and> (7::nat) < 10 ^ 6 \<and> padValueWithZeros 6 5 \<noteq> padValueWithZeros 6 7
   \<and> 6 < length (decimal 1234567) \<and> padValueWithZeros 6 1234567 = decimal 1234567"
proof -
  have long: "6 < length (decimal 1234567)" by (simp add: decimal.simps)
  show ?thesis
    using padValueWithZeros_width_injective [of 6 5 7]
      padValueWithZeros_width_injective [of 6 1234567 0] long
    by simp
qed

section \<open>The time token of BaseIO\<close>

text \<open>
  Claim C9. The token \<open>convertPhysicalTimeToString\<close> returns does not depend on its
  argument: in one state of the process, any two arguments give the same token, which is
  computed from the global physical time.
\<close>

theorem convertPhysicalTimeToString_ignores_argument:
  "convertPhysicalTimeToString W w t1 = convertPhysicalTimeToString W w t2"
  by (simp add: convertPhysicalTimeToString_def)

text \<open>
  Claim C3. The spec computes the token from the argument. At global physical time 0 and
  argument 1 the spec's token is the numeral of one million, while the code returns the
  token of index 0.
\<close>

theorem convertPhysicalTimeToString_not_spec_token:
  "convertPhysicalTimeToString 6 world0 1 = Some ''000000''
   \<and> spec_time_token 6 1 = ''1000000''"
proof -
  have zero: "padValueWithZeros 6 0 = ''000000''"
    by (simp add: padValueWithZeros_def zero_fill_def decimal.simps [of 0] digit_char_def
        eval_nat_numeral)
  have million: "padValueWithZeros 6 1000000 = ''1000000''"
    by (simp add: padValueWithZeros_def zero_fill_def decimal.simps digit_char_def)
  have "convertPhysicalTimeToString 6 world0 1 = Some (padValueWithZeros 6 0)"
    by (simp add: convertPhysicalTimeToString_def world0_def truncate_Real_def)
  moreover have "spec_time_token 6 1 = padValueWithZeros 6 1000000"
    by (simp add: spec_time_token_def)
  ultimately show ?thesis
    using zero million by simp
qed

section \<open>The loops of RestartIO\<close>

lemma write_body_files:
  "files (writeParticlesToXmlForRestart b p (if fs_exists p w then fs_remove p w else w))
     = (files w)(p \<mapsto> Xml (particles b))"
  by (simp add: writeParticlesToXmlForRestart_def fs_remove_def)

lemma write_body_time:
  "physical_time (writeParticlesToXmlForRestart b p (if fs_exists p w then fs_remove p w else w))
     = physical_time w"
  by (simp add: writeParticlesToXmlForRestart_def fs_remove_def)

lemma write_body_cout:
  "cout (writeParticlesToXmlForRestart b p (if fs_exists p w then fs_remove p w else w))
     = cout w"
  by (simp add: writeParticlesToXmlForRestart_def fs_remove_def)

lemma write_body_log:
  "n \<le> length (fs_log w) \<Longrightarrow>
   take n (fs_log (writeParticlesToXmlForRestart b p (if fs_exists p w then fs_remove p w else w)))
     = take n (fs_log w)"
  by (simp add: writeParticlesToXmlForRestart_def fs_remove_def)

lemma write_body_log_length:
  "length (fs_log w)
     \<le> length (fs_log (writeParticlesToXmlForRestart b p (if fs_exists p w then fs_remove p w else w)))"
  by (simp add: writeParticlesToXmlForRestart_def fs_remove_def)

lemma write_loop_step:
  "i < length (bodies io) \<Longrightarrow>
   RestartIO_writeToFile_loop W io k i w =
     RestartIO_writeToFile_loop W io k (Suc i)
       (writeParticlesToXmlForRestart (bodies io ! i) (restart_body_path W io k i)
          (if fs_exists (restart_body_path W io k i) w
           then fs_remove (restart_body_path W io k i) w else w))"
  by (subst RestartIO_writeToFile_loop.simps) (simp add: restart_body_path_def Let_def)

lemma write_loop_done:
  "\<not> i < length (bodies io) \<Longrightarrow> RestartIO_writeToFile_loop W io k i w = w"
  by (subst RestartIO_writeToFile_loop.simps) simp

lemma write_loop_files_other:
  "\<forall>j. i \<le> j \<and> j < length (bodies io) \<longrightarrow> restart_body_path W io k j \<noteq> p \<Longrightarrow>
   files (RestartIO_writeToFile_loop W io k i w) p = files w p"
proof (induction "length (bodies io) - i" arbitrary: i w)
  case 0
  then show ?case by (simp add: write_loop_done)
next
  case (Suc d)
  then have lt: "i < length (bodies io)" by simp
  have "files (RestartIO_writeToFile_loop W io k (Suc i)
          (writeParticlesToXmlForRestart (bodies io ! i) (restart_body_path W io k i)
            (if fs_exists (restart_body_path W io k i) w
             then fs_remove (restart_body_path W io k i) w else w))) p
        = files (writeParticlesToXmlForRestart (bodies io ! i) (restart_body_path W io k i)
            (if fs_exists (restart_body_path W io k i) w
             then fs_remove (restart_body_path W io k i) w else w)) p"
    using Suc.hyps(2) Suc.prems by (intro Suc.hyps(1)) auto
  also have "\<dots> = files w p"
    using Suc.prems [rule_format, of i] lt by (simp only: write_body_files) simp
  finally show ?case by (simp only: write_loop_step [OF lt])
qed

lemma write_loop_files_at:
  "i \<le> j \<Longrightarrow> j < length (bodies io) \<Longrightarrow>
   \<forall>j'. j < j' \<and> j' < length (bodies io) \<longrightarrow> restart_body_path W io k j' \<noteq> restart_body_path W io k j \<Longrightarrow>
   files (RestartIO_writeToFile_loop W io k i w) (restart_body_path W io k j)
     = Some (Xml (particles (bodies io ! j)))"
proof (induction "j - i" arbitrary: i w)
  case 0
  then have ij: "i = j" by simp
  have lt: "i < length (bodies io)" using 0 by simp
  let ?w1 = "writeParticlesToXmlForRestart (bodies io ! i) (restart_body_path W io k i)
          (if fs_exists (restart_body_path W io k i) w
           then fs_remove (restart_body_path W io k i) w else w)"
  have "files (RestartIO_writeToFile_loop W io k (Suc i) ?w1) (restart_body_path W io k j)
        = files ?w1 (restart_body_path W io k j)"
    using "0.prems" ij by (intro write_loop_files_other) auto
  also have "\<dots> = Some (Xml (particles (bodies io ! j)))"
    unfolding ij by (simp only: write_body_files) simp
  finally show ?case
    by (simp only: write_loop_step [OF lt])
next
  case (Suc d)
  then have lt: "i < length (bodies io)" and "Suc i \<le> j" and "d = j - Suc i" by simp_all
  then show ?case
    unfolding write_loop_step [OF lt]
    using Suc.prems by (intro Suc.hyps(1)) auto
qed

lemma write_loop_time: "physical_time (RestartIO_writeToFile_loop W io k i w) = physical_time w"
proof (induction "length (bodies io) - i" arbitrary: i w)
  case 0
  then show ?case by (simp add: write_loop_done)
next
  case (Suc d)
  then have lt: "i < length (bodies io)" by simp
  show ?case
    unfolding write_loop_step [OF lt]
    using Suc.hyps(2) by (subst Suc.hyps(1)) (auto simp: write_body_time)
qed

lemma write_loop_cout: "cout (RestartIO_writeToFile_loop W io k i w) = cout w"
proof (induction "length (bodies io) - i" arbitrary: i w)
  case 0
  then show ?case by (simp add: write_loop_done)
next
  case (Suc d)
  then have lt: "i < length (bodies io)" by simp
  show ?case
    unfolding write_loop_step [OF lt]
    using Suc.hyps(2) by (subst Suc.hyps(1)) (auto simp: write_body_cout)
qed

lemma write_loop_log:
  "n \<le> length (fs_log w) \<Longrightarrow>
   take n (fs_log (RestartIO_writeToFile_loop W io k i w)) = take n (fs_log w)"
proof (induction "length (bodies io) - i" arbitrary: i w)
  case 0
  then show ?case by (simp add: write_loop_done)
next
  case (Suc d)
  then have lt: "i < length (bodies io)" by simp
  let ?w1 = "writeParticlesToXmlForRestart (bodies io ! i) (restart_body_path W io k i)
          (if fs_exists (restart_body_path W io k i) w
           then fs_remove (restart_body_path W io k i) w else w)"
  have "n \<le> length (fs_log ?w1)"
    using Suc.prems write_body_log_length [of w "bodies io ! i" "restart_body_path W io k i"]
    by linarith
  then have "take n (fs_log (RestartIO_writeToFile_loop W io k (Suc i) ?w1)) = take n (fs_log ?w1)"
    using Suc.hyps(2) by (intro Suc.hyps(1)) auto
  also have "\<dots> = take n (fs_log w)"
    using Suc.prems by (rule write_body_log)
  finally show ?case
    unfolding write_loop_step [OF lt] .
qed


lemma restart_body_path_bodies [simp]:
  "restart_body_path W (io\<lparr>bodies := bs\<rparr>) k j = restart_body_path W io k j"
  by (simp add: restart_body_path_def)

lemma fs_exists_fs_log [simp]: "fs_exists p (w\<lparr>fs_log := l\<rparr>) = fs_exists p w"
  by (simp add: fs_exists_def)

lemma read_loop_step:
  "i < length (bodies io) \<Longrightarrow> fs_exists (restart_body_path W io k i) w \<Longrightarrow>
   RestartIO_readFromFile_loop W io k i w =
     RestartIO_readFromFile_loop W (io\<lparr>bodies := (bodies io)[i := restored_body W io k w i]\<rparr>) k (Suc i)
       (w\<lparr>fs_log := fs_log w @ [(Read, restart_body_path W io k i)]\<rparr>)"
  by (subst RestartIO_readFromFile_loop.simps)
    (simp add: restart_body_path_def restored_body_def readParticlesFromXmlForRestart_def Let_def)

lemma read_loop_exit:
  "i < length (bodies io) \<Longrightarrow> \<not> fs_exists (restart_body_path W io k i) w \<Longrightarrow>
   RestartIO_readFromFile_loop W io k i w =
     (Exited 1, io, cout_print (missing_file_message (restart_body_path W io k i) 99) w)"
  by (subst RestartIO_readFromFile_loop.simps) (simp add: restart_body_path_def Let_def)

lemma read_loop_done:
  "\<not> i < length (bodies io) \<Longrightarrow> RestartIO_readFromFile_loop W io k i w = (Returned (), io, w)"
  by (subst RestartIO_readFromFile_loop.simps) simp

lemma restored_body_later:
  "i < j \<Longrightarrow>
   restored_body W (io\<lparr>bodies := (bodies io)[i := b]\<rparr>) k (w\<lparr>fs_log := l\<rparr>) j
     = restored_body W io k w j"
  by (simp add: restored_body_def readParticlesFromXmlForRestart_def)

lemma read_loop_prefix:
  "i \<le> m \<Longrightarrow> m \<le> length (bodies io) \<Longrightarrow>
   \<forall>j. i \<le> j \<and> j < m \<longrightarrow> fs_exists (restart_body_path W io k j) w \<Longrightarrow>
   RestartIO_readFromFile_loop W io k i w =
     RestartIO_readFromFile_loop W
       (io\<lparr>bodies := take i (bodies io) @ map (restored_body W io k w) [i..<m] @ drop m (bodies io)\<rparr>)
       k m (w\<lparr>fs_log := fs_log w @ map (\<lambda>j. (Read, restart_body_path W io k j)) [i..<m]\<rparr>)"
proof (induction "m - i" arbitrary: i io w)
  case 0
  then have "i = m" by simp
  then show ?case by simp
next
  case (Suc d)
  then have im: "i < m" and lt: "i < length (bodies io)" by simp_all
  let ?b = "restored_body W io k w i"
  let ?io1 = "io\<lparr>bodies := (bodies io)[i := ?b]\<rparr>"
  let ?w1 = "w\<lparr>fs_log := fs_log w @ [(Read, restart_body_path W io k i)]\<rparr>"
  have ex: "fs_exists (restart_body_path W io k i) w"
    using Suc.prems im by simp
  have step: "RestartIO_readFromFile_loop W io k i w = RestartIO_readFromFile_loop W ?io1 k (Suc i) ?w1"
    using lt ex by (rule read_loop_step)
  have IH: "RestartIO_readFromFile_loop W ?io1 k (Suc i) ?w1 =
     RestartIO_readFromFile_loop W
       (?io1\<lparr>bodies := take (Suc i) (bodies ?io1) @ map (restored_body W ?io1 k ?w1) [Suc i..<m]
                         @ drop m (bodies ?io1)\<rparr>)
       k m (?w1\<lparr>fs_log := fs_log ?w1 @ map (\<lambda>j. (Read, restart_body_path W ?io1 k j)) [Suc i..<m]\<rparr>)"
    using Suc.hyps(2) Suc.prems im by (intro Suc.hyps(1)) auto
  have bodies_eq: "take (Suc i) (bodies ?io1) @ map (restored_body W ?io1 k ?w1) [Suc i..<m]
                    @ drop m (bodies ?io1)
        = take i (bodies io) @ map (restored_body W io k w) [i..<m] @ drop m (bodies io)"
  proof -
    have "take (Suc i) (bodies ?io1) = take i (bodies io) @ [?b]"
      using lt by (simp add: take_Suc_conv_app_nth)
    moreover have "map (restored_body W ?io1 k ?w1) [Suc i..<m] = map (restored_body W io k w) [Suc i..<m]"
      by (rule map_cong) (simp_all add: restored_body_later)
    moreover have "drop m (bodies ?io1) = drop m (bodies io)"
      using im by simp
    moreover have "[i..<m] = i # [Suc i..<m]"
      using im by (simp add: upt_conv_Cons)
    ultimately show ?thesis by simp
  qed
  have log_eq: "fs_log ?w1 @ map (\<lambda>j. (Read, restart_body_path W ?io1 k j)) [Suc i..<m]
        = fs_log w @ map (\<lambda>j. (Read, restart_body_path W io k j)) [i..<m]"
    using im by (simp add: upt_conv_Cons)
  show ?case
    unfolding step IH bodies_eq log_eq by simp
qed

lemma read_loop_all:
  assumes "\<forall>j. j < length (bodies io) \<longrightarrow> fs_exists (restart_body_path W io k j) w"
  shows "RestartIO_readFromFile_loop W io k 0 w =
     (Returned (),
      io\<lparr>bodies := map (restored_body W io k w) [0..<length (bodies io)]\<rparr>,
      w\<lparr>fs_log := fs_log w @ map (\<lambda>j. (Read, restart_body_path W io k j)) [0..<length (bodies io)]\<rparr>)"
proof -
  have "RestartIO_readFromFile_loop W io k 0 w =
     RestartIO_readFromFile_loop W
       (io\<lparr>bodies := take 0 (bodies io) @ map (restored_body W io k w) [0..<length (bodies io)]
                        @ drop (length (bodies io)) (bodies io)\<rparr>)
       k (length (bodies io))
       (w\<lparr>fs_log := fs_log w @ map (\<lambda>j. (Read, restart_body_path W io k j)) [0..<length (bodies io)]\<rparr>)"
    using assms by (intro read_loop_prefix) auto
  then show ?thesis
    by (simp add: read_loop_done)
qed

lemma read_loop_missing:
  assumes "m < length (bodies io)"
    and "\<forall>j. j < m \<longrightarrow> fs_exists (restart_body_path W io k j) w"
    and "\<not> fs_exists (restart_body_path W io k m) w"
  shows "RestartIO_readFromFile_loop W io k 0 w =
     (Exited 1,
      io\<lparr>bodies := map (restored_body W io k w) [0..<m] @ drop m (bodies io)\<rparr>,
      cout_print (missing_file_message (restart_body_path W io k m) 99)
        (w\<lparr>fs_log := fs_log w @ map (\<lambda>j. (Read, restart_body_path W io k j)) [0..<m]\<rparr>))"
proof -
  have "RestartIO_readFromFile_loop W io k 0 w =
     RestartIO_readFromFile_loop W
       (io\<lparr>bodies := take 0 (bodies io) @ map (restored_body W io k w) [0..<m] @ drop m (bodies io)\<rparr>)
       k m (w\<lparr>fs_log := fs_log w @ map (\<lambda>j. (Read, restart_body_path W io k j)) [0..<m]\<rparr>)"
    using assms by (intro read_loop_prefix) auto
  also have "\<dots> = (Exited 1,
      io\<lparr>bodies := map (restored_body W io k w) [0..<m] @ drop m (bodies io)\<rparr>,
      cout_print (missing_file_message (restart_body_path W io k m) 99)
        (w\<lparr>fs_log := fs_log w @ map (\<lambda>j. (Read, restart_body_path W io k j)) [0..<m]\<rparr>))"
    using assms by (subst read_loop_exit) simp_all
  finally show ?thesis .
qed

section \<open>The physical time on the overall file\<close>

lemma isdigit_not_space: "isdigit c \<Longrightarrow> \<not> isspace c"
  by (auto simp: isdigit_def isspace_def)

lemma isdigit_not_sign: "isdigit c \<Longrightarrow> c \<noteq> CHR ''-'' \<and> c \<noteq> CHR ''+''"
  by (auto simp: isdigit_def)

lemma not_isdigit_point: "\<not> isdigit CHR ''.''" and not_isdigit_space: "\<not> isdigit CHR '' ''"
  by (simp_all add: isdigit_def)

lemma not_isspace_minus: "\<not> isspace CHR ''-''"
  by (simp add: isspace_def)

lemma istream_Real_digits:
  assumes s1: "dropWhile isspace s = s"
    and sign: "neg = (s \<noteq> [] \<and> hd s = CHR ''-'')"
    and s2: "(if s \<noteq> [] \<and> (hd s = CHR ''-'' \<or> hd s = CHR ''+'') then tl s else s) = t"
    and tw: "takeWhile isdigit t = D" and dw: "dropWhile isdigit t = CHR ''.'' # u"
    and fp: "takeWhile isdigit u = F" and "D \<noteq> []"
  shows "istream_Real s
           = (if neg then - 1 else 1) * (of_nat (digits_val D) + of_nat (digits_val F) / 10 ^ length F)"
  unfolding istream_Real_def Let_def s1 s2 tw dw sign [symmetric]
  using assms(7) by (simp add: fp)

lemma istream_Real_unsigned:
  assumes "D \<noteq> []" and D: "\<forall>c \<in> set D. isdigit c" and F: "\<forall>c \<in> set F. isdigit c"
  shows "istream_Real (D @ CHR ''.'' # F @ CHR '' '' # rest)
           = of_nat (digits_val D) + of_nat (digits_val F) / 10 ^ length F"
proof -
  obtain d D' where DD: "D = d # D'" using assms(1) by (cases D) auto
  have d: "isdigit d" using D DD by simp
  define u where "u = F @ CHR '' '' # rest"
  define s where "s = D @ CHR ''.'' # u"
  have s1: "dropWhile isspace s = s"
    using d by (simp add: s_def DD isdigit_not_space)
  have hd: "s \<noteq> []" "hd s = d" by (simp_all add: s_def DD)
  have sign: "False = (s \<noteq> [] \<and> hd s = CHR ''-'')"
    using hd isdigit_not_sign [OF d] by simp
  have s2: "(if s \<noteq> [] \<and> (hd s = CHR ''-'' \<or> hd s = CHR ''+'') then tl s else s) = s"
    using hd isdigit_not_sign [OF d] by simp
  have tw: "takeWhile isdigit s = D"
    using D by (simp add: s_def takeWhile_append2 not_isdigit_point)
  have dw: "dropWhile isdigit s = CHR ''.'' # u"
    using D by (simp add: s_def dropWhile_append2 not_isdigit_point)
  have fp: "takeWhile isdigit u = F"
    using F by (simp add: u_def takeWhile_append2 not_isdigit_space)
  have "istream_Real s = of_nat (digits_val D) + of_nat (digits_val F) / 10 ^ length F"
    using istream_Real_digits [OF s1 sign s2 tw dw fp assms(1)] by simp
  then show ?thesis by (simp add: s_def u_def)
qed

lemma istream_Real_negative:
  assumes "D \<noteq> []" and D: "\<forall>c \<in> set D. isdigit c" and F: "\<forall>c \<in> set F. isdigit c"
  shows "istream_Real (CHR ''-'' # D @ CHR ''.'' # F @ CHR '' '' # rest)
           = - (of_nat (digits_val D) + of_nat (digits_val F) / 10 ^ length F)"
proof -
  define u where "u = F @ CHR '' '' # rest"
  define t where "t = D @ CHR ''.'' # u"
  define s where "s = CHR ''-'' # t"
  have s1: "dropWhile isspace s = s"
    by (simp add: s_def not_isspace_minus)
  have sign: "True = (s \<noteq> [] \<and> hd s = CHR ''-'')"
    by (simp add: s_def)
  have s2: "(if s \<noteq> [] \<and> (hd s = CHR ''-'' \<or> hd s = CHR ''+'') then tl s else s) = t"
    by (simp add: s_def)
  have tw: "takeWhile isdigit t = D"
    using D by (simp add: t_def takeWhile_append2 not_isdigit_point)
  have dw: "dropWhile isdigit t = CHR ''.'' # u"
    using D by (simp add: t_def dropWhile_append2 not_isdigit_point)
  have fp: "takeWhile isdigit u = F"
    using F by (simp add: u_def takeWhile_append2 not_isdigit_space)
  have "istream_Real s = - (of_nat (digits_val D) + of_nat (digits_val F) / 10 ^ length F)"
    using istream_Real_digits [OF s1 sign s2 tw dw fp assms(1)] by simp
  then show ?thesis by (simp add: s_def t_def u_def)
qed

lemma div_mod_rat:
  "0 < q \<Longrightarrow> (of_nat (n div q) :: rat) + of_nat (n mod q) / of_nat q = of_nat n / of_nat q"
proof -
  assume q: "0 < q"
  have "(of_nat n :: rat) = of_nat (n div q * q + n mod q)" by simp
  also have "\<dots> = of_nat (n div q) * of_nat q + of_nat (n mod q)" by (simp only: of_nat_add of_nat_mult)
  finally show ?thesis using q by (simp add: field_simps)
qed

lemma istream_Real_ostream_fixed9:
  "istream_Real (ostream_fixed9 x @ ''   '' @ [newline]) = nine_digits x"
proof -
  define n where "n = nat (round_half_even (\<bar>x\<bar> * 10 ^ 9))"
  define D where "D = decimal (n div 10 ^ 9)"
  define F where "F = zero_fill 9 (decimal (n mod 10 ^ 9))"
  have D: "D \<noteq> []" "\<forall>c \<in> set D. isdigit c"
    by (simp_all add: D_def decimal_not_Nil isdigit_decimal)
  have F: "\<forall>c \<in> set F. isdigit c"
    unfolding F_def using isdigit_zero_fill isdigit_decimal by blast
  have "length (decimal (n mod 10 ^ 9)) \<le> 9"
    by (rule length_decimal_le) simp_all
  then have lenF: "length F = 9"
    by (simp add: F_def length_zero_fill)
  have vD: "digits_val D = n div 10 ^ 9" by (simp add: D_def digits_val_decimal)
  have vF: "digits_val F = n mod 10 ^ 9"
    by (simp add: F_def digits_val_zero_fill digits_val_decimal)
  have val: "(of_nat (digits_val D) :: rat) + of_nat (digits_val F) / 10 ^ length F = of_nat n / 10 ^ 9"
    unfolding vD vF lenF using div_mod_rat [of "10 ^ 9" n] by simp
  have shape: "ostream_fixed9 x @ ''   '' @ [newline]
      = (if x < 0 then ''-'' else '''') @ D @ CHR ''.'' # F @ CHR '' '' # ('' '' @ '' '' @ [newline])"
    by (simp add: ostream_fixed9_def Let_def n_def D_def F_def)
  show ?thesis
  proof (cases "x < 0")
    case True
    then show ?thesis
      unfolding shape using istream_Real_negative [OF D F] val
      by (simp add: nine_digits_def n_def)
  next
    case False
    then show ?thesis
      unfolding shape using istream_Real_unsigned [OF D F] val
      by (simp add: nine_digits_def n_def)
  qed
qed

lemma round_half_even_close: "\<bar>of_int (round_half_even y) - y\<bar> \<le> 1 / 2"
proof -
  have "of_int \<lfloor>y\<rfloor> \<le> y" "y < of_int \<lfloor>y\<rfloor> + 1" by linarith+
  then show ?thesis
    by (auto simp: round_half_even_def Let_def abs_le_iff)
qed

lemma round_half_even_nonneg: "0 \<le> y \<Longrightarrow> 0 \<le> round_half_even y"
proof -
  assume "0 \<le> y"
  then have "0 \<le> \<lfloor>y\<rfloor>" by simp
  then show ?thesis by (auto simp: round_half_even_def Let_def)
qed

lemma nine_digits_close: "\<bar>nine_digits x - x\<bar> \<le> 1 / (2 * 10 ^ 9)"
proof -
  define y where "y = \<bar>x\<bar> * 10 ^ 9"
  define r where "r = round_half_even y"
  have y0: "0 \<le> y" by (simp add: y_def)
  have r0: "0 \<le> r" unfolding r_def using y0 by (rule round_half_even_nonneg)
  have close: "\<bar>of_int r - y\<bar> \<le> 1 / 2" unfolding r_def by (rule round_half_even_close)
  have nat: "(of_nat (nat r) :: rat) = of_int r" using r0 by simp
  have eq: "of_int r / 10 ^ 9 - \<bar>x\<bar> = (of_int r - y) / 10 ^ 9"
    by (simp add: y_def diff_divide_distrib)
  have "\<bar>of_int r / 10 ^ 9 - \<bar>x\<bar>\<bar> = \<bar>(of_int r - y) / 10 ^ 9\<bar>"
    by (simp only: eq)
  also have "\<dots> = \<bar>of_int r - y\<bar> / 10 ^ 9"
    by (simp only: abs_divide) simp
  also have "\<dots> \<le> (1 / 2) / 10 ^ 9"
    using close by (rule divide_right_mono) simp
  finally have *: "\<bar>of_int r / 10 ^ 9 - \<bar>x\<bar>\<bar> \<le> 1 / (2 * 10 ^ 9)" by simp
  have nd: "nine_digits x = (if x < 0 then - 1 else 1) * of_int r / 10 ^ 9"
    unfolding nine_digits_def r_def y_def using nat [unfolded r_def y_def] by (simp only:)
  show ?thesis
  proof (cases "x < 0")
    case True
    have "nine_digits x - x = - (of_int r / 10 ^ 9 - \<bar>x\<bar>)"
      using True by (simp add: nd)
    then have "\<bar>nine_digits x - x\<bar> = \<bar>of_int r / 10 ^ 9 - \<bar>x\<bar>\<bar>"
      by (simp only: abs_minus_cancel)
    then show ?thesis using * by (simp only:)
  next
    case False
    have "nine_digits x - x = of_int r / 10 ^ 9 - \<bar>x\<bar>"
      using False by (simp add: nd)
    then show ?thesis using * by (simp only:)
  qed
qed

section \<open>Checkpoints of RestartIO\<close>


lemma RestartIO_SomeD:
  assumes "RestartIO env bs = Some io"
  shows "bs \<noteq> []" and "bodies io = bs"
    and "file_names io = map (\<lambda>body. restart_folder env @ ''/'' @ getName body @ ''_rst_'') bs"
    and "overall_file_path io = restart_folder env @ ''/Restart_time_''"
  using assms by (auto simp: RestartIO_def split: if_splits)

lemma restart_body_path_ctor:
  assumes "RestartIO env bs = Some io" and "j < length bs"
  shows "restart_body_path W io k j
           = restart_folder env @ ''/'' @ getName (bs ! j) @ ''_rst_'' @ padValueWithZeros W k @ ''.xml''"
  using assms(2) by (simp add: restart_body_path_def RestartIO_SomeD(3) [OF assms(1)])

lemma restart_body_path_inj:
  assumes "RestartIO env bs = Some io" and "distinct (map getName bs)"
    and "i < length bs" and "j < length bs"
    and "restart_body_path W io k i = restart_body_path W io k j"
  shows "i = j"
proof -
  have "getName (bs ! i) = getName (bs ! j)"
    using assms(5) by (simp add: restart_body_path_ctor [OF assms(1)] assms(3,4))
  then have "map getName bs ! i = map getName bs ! j"
    using assms(3,4) by simp
  moreover have "i < length (map getName bs)" "j < length (map getName bs)"
    using assms(3,4) by simp_all
  ultimately show ?thesis
    using nth_eq_iff_index_eq [OF assms(2)] by blast
qed

lemma dat_not_xml: "a @ ''.dat'' \<noteq> b @ ''.xml''"
proof
  assume "a @ ''.dat'' = b @ ''.xml''"
  then have "last (a @ ''.dat'') = last (b @ ''.xml'')" by (rule arg_cong)
  then show False by simp
qed

lemma overall_not_body: "restart_body_path W io k j \<noteq> restart_overall_path W io' k' "
  unfolding restart_body_path_def restart_overall_path_def
  using dat_not_xml [of "overall_file_path io' @ padValueWithZeros W k'" "file_names io ! j @ padValueWithZeros W k"]
  by (simp del: append_assoc add: append_assoc [symmetric])

lemma writeToFile_eq:
  "RestartIO_writeToFile W io k w =
     RestartIO_writeToFile_loop W io k 0
       (ofstream_app (restart_overall_path W io k)
          (ostream_fixed9 (physical_time w) @ ''   '' @ [newline])
          (if fs_exists (restart_overall_path W io k) w
           then fs_remove (restart_overall_path W io k) w else w))"
  by (simp add: RestartIO_writeToFile_def restart_overall_path_def Let_def fs_remove_def)

lemma overall_step_files:
  "files (ofstream_app p txt (if fs_exists p w then fs_remove p w else w)) = (files w)(p \<mapsto> Dat txt)"
  by (auto simp: ofstream_app_def fs_remove_def fs_exists_def)

lemma overall_step_log:
  "fs_exists p w \<Longrightarrow>
   fs_log (ofstream_app p txt (if fs_exists p w then fs_remove p w else w))
     = fs_log w @ [(Remove, p), (Write, p)]"
  by (simp add: ofstream_app_def fs_remove_def)

lemma writeToFile_overall:
  "files (RestartIO_writeToFile W io k w) (restart_overall_path W io k)
     = Some (Dat (ostream_fixed9 (physical_time w) @ ''   '' @ [newline]))"
  unfolding writeToFile_eq
  by (subst write_loop_files_other) (simp_all only: overall_not_body overall_step_files, simp_all)

lemma writeToFile_body:
  assumes "RestartIO env bs = Some io" and "distinct (map getName bs)" and "j < length bs"
  shows "files (RestartIO_writeToFile W io k w) (restart_body_path W io k j)
           = Some (Xml (particles (bs ! j)))"
proof -
  have b: "bodies io = bs" by (rule RestartIO_SomeD(2) [OF assms(1)])
  have "files (RestartIO_writeToFile W io k w) (restart_body_path W io k j)
           = Some (Xml (particles (bodies io ! j)))"
    unfolding writeToFile_eq
  proof (rule write_loop_files_at)
    show "0 \<le> j" by simp
    show "j < length (bodies io)" using assms(3) b by simp
    show "\<forall>j'. j < j' \<and> j' < length (bodies io) \<longrightarrow>
            restart_body_path W io k j' \<noteq> restart_body_path W io k j"
      using restart_body_path_inj [OF assms(1,2)] assms(3) b by fastforce
  qed
  then show ?thesis by (simp add: b)
qed

lemma readRestartTime_present:
  assumes "files w (restart_overall_path W io k) = Some (Dat txt)"
  shows "fst (RestartIO_readRestartTime W io k w) = Returned (istream_Real txt)"
  using assms
  by (simp add: RestartIO_readRestartTime_def Let_def restart_overall_path_def [symmetric]
      fs_exists_def cout_print_def ifstream_Real_def)


text \<open>
  Claim C1, as amended. For a RestartIO constructed over a list of bodies whose names
  are pairwise distinct, for every step, field width and physical time: after
  \<open>writeToFile\<close> at the step, \<open>readRestartTime\<close> at the same step returns the
  written physical time rounded to nine decimal digits, which is within half a unit of
  the ninth digit of it, and \<open>readFromFile\<close> returns and gives every body the state it
  had when it was written, whatever state the bodies have when the read starts.
\<close>

theorem RestartIO_round_trip:
  assumes "RestartIO env bs = Some io" and "distinct (map getName bs)"
    and "files w2 = files (RestartIO_writeToFile W io k w)" and "length bs' = length bs"
  shows "fst (RestartIO_readRestartTime W io k w2) = Returned (nine_digits (physical_time w))
     \<and> \<bar>nine_digits (physical_time w) - physical_time w\<bar> \<le> 1 / (2 * 10 ^ 9)
     \<and> fst (RestartIO_readFromFile W (io\<lparr>bodies := bs'\<rparr>) k w2) = Returned ()
     \<and> bodies (fst (snd (RestartIO_readFromFile W (io\<lparr>bodies := bs'\<rparr>) k w2)))
         = map2 (\<lambda>b' b. b'\<lparr>particles := particles b\<rparr>) bs' bs"
proof -
  let ?io' = "io\<lparr>bodies := bs'\<rparr>"
  have "files w2 (restart_overall_path W io k)
          = Some (Dat (ostream_fixed9 (physical_time w) @ ''   '' @ [newline]))"
    by (simp only: assms(3) writeToFile_overall)
  then have time: "fst (RestartIO_readRestartTime W io k w2) = Returned (nine_digits (physical_time w))"
    by (simp only: readRestartTime_present istream_Real_ostream_fixed9)
  have snap: "files w2 (restart_body_path W ?io' k j) = Some (Xml (particles (bs ! j)))"
    if "j < length bs" for j
    using writeToFile_body [OF assms(1,2) that] by (simp add: assms(3))
  have len: "length (bodies ?io') = length bs" by (simp add: assms(4))
  have ex: "\<forall>j. j < length (bodies ?io') \<longrightarrow> fs_exists (restart_body_path W ?io' k j) w2"
    using snap len by (simp add: fs_exists_def)
  have restored: "restored_body W ?io' k w2 j = (bs' ! j)\<lparr>particles := particles (bs ! j)\<rparr>"
    if "j < length bs" for j
    using snap [OF that]
    by (simp add: restored_body_def readParticlesFromXmlForRestart_def)
  have "map (restored_body W ?io' k w2) [0..<length bs]
          = map2 (\<lambda>b' b. b'\<lparr>particles := particles b\<rparr>) bs' bs"
    by (rule nth_equalityI) (simp_all add: assms(4) restored)
  then show ?thesis
    using time nine_digits_close [of "physical_time w"]
    by (simp add: RestartIO_readFromFile_def read_loop_all [OF ex] assms(4))
qed


text \<open>
  Claim C10. When the files of the bodies at positions below \<open>m\<close> exist and the file of
  the body at position \<open>m\<close> is missing, \<open>readFromFile\<close> ends the process with the
  bodies below \<open>m\<close> already restored from their files and the others untouched.
\<close>

theorem RestartIO_readFromFile_not_atomic:
  assumes "RestartIO env bs = Some io" and "m < length bs"
    and "\<forall>j<m. fs_exists (restart_body_path W io k j) w"
    and "\<not> fs_exists (restart_body_path W io k m) w"
  shows "RestartIO_readFromFile W io k w =
     (Exited 1,
      io\<lparr>bodies := map (restored_body W io k w) [0..<m] @ drop m bs\<rparr>,
      cout_print (missing_file_message (restart_body_path W io k m) 99)
        (w\<lparr>fs_log := fs_log w @ map (\<lambda>j. (Read, restart_body_path W io k j)) [0..<m]\<rparr>))"
proof -
  have b: "bodies io = bs" by (rule RestartIO_SomeD(2) [OF assms(1)])
  have "RestartIO_readFromFile_loop W io k 0 w =
     (Exited 1,
      io\<lparr>bodies := map (restored_body W io k w) [0..<m] @ drop m (bodies io)\<rparr>,
      cout_print (missing_file_message (restart_body_path W io k m) 99)
        (w\<lparr>fs_log := fs_log w @ map (\<lambda>j. (Read, restart_body_path W io k j)) [0..<m]\<rparr>))"
    using assms(2-4) b by (intro read_loop_missing) simp_all
  then show ?thesis
    by (simp add: RestartIO_readFromFile_def b)
qed

text \<open>
  Claim C5. Writing the same step twice, at physical times \<open>t1\<close> and then \<open>t2\<close>,
  leaves at the overall path one file whose content is the text of \<open>t2\<close> alone; the
  second write begins by removing the file and then writes it.
\<close>

theorem RestartIO_overwrite:
  assumes "RestartIO env bs = Some io"
    and "w1 = RestartIO_writeToFile W io k (w\<lparr>physical_time := t1\<rparr>)"
    and "w2 = RestartIO_writeToFile W io k (w1\<lparr>physical_time := t2\<rparr>)"
  shows "files w2 (restart_overall_path W io k)
           = Some (Dat (ostream_fixed9 t2 @ ''   '' @ [newline]))
     \<and> take 2 (drop (length (fs_log w1)) (fs_log w2))
           = [(Remove, restart_overall_path W io k), (Write, restart_overall_path W io k)]"
proof -
  let ?p = "restart_overall_path W io k"
  let ?w1 = "w1\<lparr>physical_time := t2\<rparr>"
  have content: "files w2 ?p = Some (Dat (ostream_fixed9 t2 @ ''   '' @ [newline]))"
    unfolding assms(3) by (simp add: writeToFile_overall)
  have "files w1 ?p \<noteq> None"
    unfolding assms(2) by (simp add: writeToFile_overall)
  then have ex: "fs_exists ?p ?w1" by (simp add: fs_exists_def)
  define v where "v = ofstream_app ?p (ostream_fixed9 (physical_time ?w1) @ ''   '' @ [newline])
              (if fs_exists ?p ?w1 then fs_remove ?p ?w1 else ?w1)"
  have v: "fs_log v = fs_log w1 @ [(Remove, ?p), (Write, ?p)]"
    unfolding v_def using overall_step_log [OF ex] by simp
  have w2: "w2 = RestartIO_writeToFile_loop W io k 0 v"
    unfolding assms(3) writeToFile_eq v_def ..
  have "take (length (fs_log w1) + 2) (fs_log w2) = take (length (fs_log w1) + 2) (fs_log v)"
    unfolding w2 by (rule write_loop_log) (simp add: v)
  then have "take (length (fs_log w1) + 2) (fs_log w2) = fs_log w1 @ [(Remove, ?p), (Write, ?p)]"
    by (simp add: v)
  then have "drop (length (fs_log w1)) (take (length (fs_log w1) + 2) (fs_log w2))
               = [(Remove, ?p), (Write, ?p)]"
    by simp
  then have "take 2 (drop (length (fs_log w1)) (fs_log w2)) = [(Remove, ?p), (Write, ?p)]"
    by (simp add: drop_take)
  with content show ?thesis by simp
qed

section \<open>Examples on two bodies\<close>

lemma pad_6_5: "padValueWithZeros 6 5 = ''000005''"
proof -
  have d: "decimal 5 = ''5''"
    by (simp add: decimal.simps [of 5] digit_char_def)
  show ?thesis
    unfolding padValueWithZeros_def zero_fill_def d by (simp add: eval_nat_numeral)
qed

lemma ctor_AB: "RestartIO env0 [bodyA 1, bodyB 2] = Some io_AB"
  by (simp add: RestartIO_def env0_def io_AB_def bodyA_def bodyB_def)

lemma ctor_AA: "RestartIO env0 [bodyA 1, bodyA 2] = Some io_AA"
  by (simp add: RestartIO_def env0_def io_AA_def bodyA_def)

lemma nine_digits_quarter: "nine_digits (1 / 4) = 1 / 4"
proof -
  have "\<bar>1 / 4 :: rat\<bar> * 10 ^ 9 = 250000000" by simp
  moreover have "round_half_even 250000000 = 250000000"
    by (simp add: round_half_even_def)
  ultimately show ?thesis by (simp add: nine_digits_def)
qed

theorem RestartIO_round_trip_witness:
  "RestartIO env0 [bodyA 1, bodyB 2] = Some io_AB
   \<and> distinct (map getName [bodyA 1, bodyB 2])
   \<and> fst (RestartIO_readRestartTime 6 io_AB 5
            (RestartIO_writeToFile 6 io_AB 5 (world0\<lparr>physical_time := 1 / 4\<rparr>))) = Returned (1 / 4)
   \<and> bodies (fst (snd (RestartIO_readFromFile 6 (io_AB\<lparr>bodies := [bodyA 7, bodyB 8]\<rparr>) 5
            (RestartIO_writeToFile 6 io_AB 5 (world0\<lparr>physical_time := 1 / 4\<rparr>)))))
       = [bodyA 1, bodyB 2]"
proof -
  have d: "distinct (map getName [bodyA 1, bodyB 2])"
    by (simp add: bodyA_def bodyB_def)
  have l: "length [bodyA 7, bodyB 8] = length [bodyA 1, bodyB 2]" by simp
  show ?thesis
    using RestartIO_round_trip [OF ctor_AB d refl l, where W = 6 and k = 5
        and w = "world0\<lparr>physical_time := 1 / 4\<rparr>"]
      ctor_AB d
    by (simp add: nine_digits_quarter bodyA_def bodyB_def)
qed

text \<open>
  Claim C1 as stated fails for two bodies of the same name: both write the same path,
  the second snapshot replaces the first, and the read gives both bodies the state of the
  second.
\<close>

theorem RestartIO_duplicate_names_counterexample:
  "RestartIO env0 [bodyA 1, bodyA 2] = Some io_AA
   \<and> bodies (fst (snd (RestartIO_readFromFile 6 io_AA 5 (RestartIO_writeToFile 6 io_AA 5 world0))))
       = [bodyA 2, bodyA 2]
   \<and> [bodyA 2, bodyA 2] \<noteq> [bodyA 1, bodyA 2]"
proof -
  let ?w = "RestartIO_writeToFile 6 io_AA 5 world0"
  have same: "restart_body_path 6 io_AA 5 0 = restart_body_path 6 io_AA 5 1"
    by (simp add: restart_body_path_def io_AA_def)
  have len: "length (bodies io_AA) = 2" by (simp add: io_AA_def)
  have "files ?w (restart_body_path 6 io_AA 5 1) = Some (Xml (particles (bodies io_AA ! 1)))"
    unfolding writeToFile_eq by (rule write_loop_files_at) (auto simp: len)
  then have snap: "files ?w (restart_body_path 6 io_AA 5 j) = Some (Xml 2)" if "j < 2" for j
    using that same by (cases j) (simp_all add: io_AA_def bodyA_def)
  have ex: "\<forall>j. j < length (bodies io_AA) \<longrightarrow> fs_exists (restart_body_path 6 io_AA 5 j) ?w"
    using snap by (simp add: fs_exists_def len)
  have r: "restored_body 6 io_AA 5 ?w j = bodyA 2" if "j < 2" for j
    using snap [OF that] that
    by (cases j) (simp_all add: restored_body_def readParticlesFromXmlForRestart_def io_AA_def bodyA_def)
  have "[0..<2] = [0, Suc 0]" by (simp add: upt_conv_Cons)
  then have "map (restored_body 6 io_AA 5 ?w) [0..<2] = [bodyA 2, bodyA 2]"
    using r [of 0] r [of 1] by simp
  then show ?thesis
    using ctor_AA by (simp add: RestartIO_readFromFile_def read_loop_all [OF ex] len bodyA_def)
qed


theorem RestartIO_readFromFile_not_atomic_witness:
  "RestartIO env0 [bodyA 1, bodyB 2] = Some io_AB
   \<and> fs_exists (restart_body_path 6 io_AB 5 0) world_A
   \<and> \<not> fs_exists (restart_body_path 6 io_AB 5 1) world_A
   \<and> fst (RestartIO_readFromFile 6 io_AB 5 world_A) = Exited 1
   \<and> bodies (fst (snd (RestartIO_readFromFile 6 io_AB 5 world_A))) = [bodyA 7, bodyB 2]"
proof -
  have p0: "restart_body_path 6 io_AB 5 0 = ''restart/A_rst_000005.xml''"
    by (simp add: restart_body_path_def io_AB_def pad_6_5)
  have p1: "restart_body_path 6 io_AB 5 1 = ''restart/B_rst_000005.xml''"
    by (simp add: restart_body_path_def io_AB_def pad_6_5)
  have e0: "fs_exists (restart_body_path 6 io_AB 5 0) world_A"
    by (simp add: p0 fs_exists_def world_A_def)
  have e1: "\<not> fs_exists (restart_body_path 6 io_AB 5 1) world_A"
    unfolding p1 by (simp add: fs_exists_def world_A_def)
  have all: "\<forall>j<1. fs_exists (restart_body_path 6 io_AB 5 j) world_A"
    using e0 by simp
  have r: "restored_body 6 io_AB 5 world_A 0 = bodyA 7"
    unfolding restored_body_def p0
    by (simp add: readParticlesFromXmlForRestart_def world_A_def io_AB_def bodyA_def)
  have m: "(1::nat) < length [bodyA 1, bodyB 2]" by simp
  show ?thesis
    using RestartIO_readFromFile_not_atomic [OF ctor_AB m all e1] ctor_AB e0 e1
    by (simp add: r)
qed

theorem RestartIO_overwrite_witness:
  "RestartIO env0 [bodyA 1, bodyB 2] = Some io_AB
   \<and> files (RestartIO_writeToFile 6 io_AB 5
        ((RestartIO_writeToFile 6 io_AB 5 (world0\<lparr>physical_time := 1\<rparr>))\<lparr>physical_time := 2\<rparr>))
        ''restart/Restart_time_000005.dat''
       = Some (Dat (ostream_fixed9 2 @ ''   '' @ [newline]))"
proof -
  have p: "restart_overall_path 6 io_AB 5 = ''restart/Restart_time_000005.dat''"
    by (simp add: restart_overall_path_def io_AB_def pad_6_5)
  show ?thesis
    using RestartIO_overwrite [OF ctor_AB refl refl, where W = 6 and k = 5 and w = world0
        and ?t1.0 = 1 and ?t2.0 = 2] ctor_AB
    by (simp add: p)
qed

section \<open>Two bodies A and B\<close>


lemma write_body_dom:
  "dom (files (writeParticlesToXmlForRestart b p (if fs_exists p w then fs_remove p w else w)))
     = insert p (dom (files w))"
  by (simp only: write_body_files) simp

lemma write_body_written:
  "written_paths (fs_log (writeParticlesToXmlForRestart b p
       (if fs_exists p w then fs_remove p w else w)))
     = written_paths (fs_log w) @ [p]"
  by (simp add: written_paths_def writeParticlesToXmlForRestart_def fs_remove_def)

lemma write_loop_dom:
  "dom (files (RestartIO_writeToFile_loop W io k i w))
     = dom (files w) \<union> restart_body_path W io k ` {i..<length (bodies io)}"
proof (induction "length (bodies io) - i" arbitrary: i w)
  case 0
  then show ?case by (simp add: write_loop_done)
next
  case (Suc d)
  then have lt: "i < length (bodies io)" and d: "d = length (bodies io) - Suc i" by simp_all
  have "{i..<length (bodies io)} = insert i {Suc i..<length (bodies io)}"
    using lt by auto
  then show ?case
    unfolding write_loop_step [OF lt] Suc.hyps(1) [OF d] write_body_dom by simp
qed

lemma write_loop_written:
  "written_paths (fs_log (RestartIO_writeToFile_loop W io k i w))
     = written_paths (fs_log w) @ map (restart_body_path W io k) [i..<length (bodies io)]"
proof (induction "length (bodies io) - i" arbitrary: i w)
  case 0
  then show ?case by (simp add: write_loop_done)
next
  case (Suc d)
  then have lt: "i < length (bodies io)" and d: "d = length (bodies io) - Suc i" by simp_all
  have "[i..<length (bodies io)] = i # [Suc i..<length (bodies io)]"
    using lt by (simp add: upt_conv_Cons)
  then show ?case
    unfolding write_loop_step [OF lt] Suc.hyps(1) [OF d] write_body_written by simp
qed

lemma overall_step_written:
  "written_paths (fs_log (ofstream_app p txt (if fs_exists p w then fs_remove p w else w)))
     = written_paths (fs_log w) @ [p]"
  by (simp add: written_paths_def ofstream_app_def fs_remove_def)

lemma writeToFile_dom:
  "dom (files (RestartIO_writeToFile W io k w))
     = dom (files w) \<union> {restart_overall_path W io k}
         \<union> restart_body_path W io k ` {0..<length (bodies io)}"
  unfolding writeToFile_eq write_loop_dom overall_step_files by simp

lemma writeToFile_written:
  "written_paths (fs_log (RestartIO_writeToFile W io k w))
     = written_paths (fs_log w) @ restart_overall_path W io k
         # map (restart_body_path W io k) [0..<length (bodies io)]"
  unfolding writeToFile_eq write_loop_written overall_step_written by simp

text \<open>
  Claim C4. For a RestartIO constructed over the bodies named A and B, with field width
  6: \<open>writeToFile\<close> at step 5 adds to the folder exactly the three files
  Restart_time_000005.dat, A_rst_000005.xml and B_rst_000005.xml, written in that order;
  \<open>readFromFile\<close> at step 5 then returns, reads A's file and then B's, and gives each
  body the state the body of its name had at the write.
\<close>

theorem RestartIO_two_bodies:
  assumes "RestartIO env [\<lparr>getName = ''A'', particles = a\<rparr>, \<lparr>getName = ''B'', particles = b\<rparr>]
             = Some io"
    and "w1 = RestartIO_writeToFile 6 io 5 w"
  shows "dom (files w1) = dom (files w) \<union>
           {restart_folder env @ ''/Restart_time_000005.dat'',
            restart_folder env @ ''/A_rst_000005.xml'',
            restart_folder env @ ''/B_rst_000005.xml''}
     \<and> written_paths (fs_log w1) = written_paths (fs_log w) @
           [restart_folder env @ ''/Restart_time_000005.dat'',
            restart_folder env @ ''/A_rst_000005.xml'',
            restart_folder env @ ''/B_rst_000005.xml'']
     \<and> RestartIO_readFromFile 6 (io\<lparr>bodies := [a', b']\<rparr>) 5 w1 =
           (Returned (),
            io\<lparr>bodies := [a'\<lparr>particles := a\<rparr>, b'\<lparr>particles := b\<rparr>]\<rparr>,
            w1\<lparr>fs_log := fs_log w1 @
                 [(Read, restart_folder env @ ''/A_rst_000005.xml''),
                  (Read, restart_folder env @ ''/B_rst_000005.xml'')]\<rparr>)"
proof -
  let ?bs = "[\<lparr>getName = ''A'', particles = a\<rparr>, \<lparr>getName = ''B'', particles = b\<rparr>]"
  let ?io' = "io\<lparr>bodies := [a', b']\<rparr>"
  note ctor = assms(1)
  have b: "bodies io = ?bs" by (rule RestartIO_SomeD(2) [OF ctor])
  have ov: "restart_overall_path 6 io 5 = restart_folder env @ ''/Restart_time_000005.dat''"
    by (simp add: restart_overall_path_def RestartIO_SomeD(4) [OF ctor] pad_6_5)
  have p0: "restart_body_path 6 io 5 0 = restart_folder env @ ''/A_rst_000005.xml''"
    using restart_body_path_ctor [OF ctor, of 0 6 5] by (simp add: pad_6_5)
  have p1: "restart_body_path 6 io 5 (Suc 0) = restart_folder env @ ''/B_rst_000005.xml''"
    using restart_body_path_ctor [OF ctor, of "Suc 0" 6 5] by (simp add: pad_6_5)
  have upt: "[0..<Suc (Suc 0)] = [0, Suc 0]" by (simp add: upt_conv_Cons)
  have set: "{0..<Suc (Suc 0)} = {0, Suc 0}" by auto
  have dom: "dom (files w1) = dom (files w) \<union>
           {restart_folder env @ ''/Restart_time_000005.dat'',
            restart_folder env @ ''/A_rst_000005.xml'',
            restart_folder env @ ''/B_rst_000005.xml''}"
    unfolding assms(2) writeToFile_dom b by (simp add: set ov p0 p1) blast
  have written: "written_paths (fs_log w1) = written_paths (fs_log w) @
           [restart_folder env @ ''/Restart_time_000005.dat'',
            restart_folder env @ ''/A_rst_000005.xml'',
            restart_folder env @ ''/B_rst_000005.xml'']"
    unfolding assms(2) writeToFile_written b by (simp add: upt ov p0 p1)
  have d: "distinct (map getName ?bs)" by simp
  have s0: "files w1 (restart_body_path 6 io 5 0) = Some (Xml a)"
    unfolding assms(2) using writeToFile_body [OF ctor d, of 0 6 5 w] by simp
  have s1: "files w1 (restart_body_path 6 io 5 (Suc 0)) = Some (Xml b)"
    unfolding assms(2) using writeToFile_body [OF ctor d, of "Suc 0" 6 5 w] by simp
  have ex: "\<forall>j. j < length (bodies ?io') \<longrightarrow> fs_exists (restart_body_path 6 ?io' 5 j) w1"
    using s0 s1 by (simp add: fs_exists_def less_Suc_eq)
  have r0: "restored_body 6 ?io' 5 w1 0 = a'\<lparr>particles := a\<rparr>"
    using s0 by (simp add: restored_body_def readParticlesFromXmlForRestart_def)
  have r1: "restored_body 6 ?io' 5 w1 (Suc 0) = b'\<lparr>particles := b\<rparr>"
    using s1 by (simp add: restored_body_def readParticlesFromXmlForRestart_def)
  have "RestartIO_readFromFile 6 ?io' 5 w1 =
           (Returned (),
            io\<lparr>bodies := [a'\<lparr>particles := a\<rparr>, b'\<lparr>particles := b\<rparr>]\<rparr>,
            w1\<lparr>fs_log := fs_log w1 @
                 [(Read, restart_folder env @ ''/A_rst_000005.xml''),
                  (Read, restart_folder env @ ''/B_rst_000005.xml'')]\<rparr>)"
    unfolding RestartIO_readFromFile_def read_loop_all [OF ex]
    by (simp add: upt r0 r1 p0 p1)
  with dom written show ?thesis by simp
qed

theorem RestartIO_two_bodies_witness:
  "RestartIO env0 [\<lparr>getName = ''A'', particles = 1\<rparr>, \<lparr>getName = ''B'', particles = 2\<rparr>] = Some io_AB
   \<and> dom (files (RestartIO_writeToFile 6 io_AB 5 world0)) =
        {''restart/Restart_time_000005.dat'', ''restart/A_rst_000005.xml'',
         ''restart/B_rst_000005.xml''}
   \<and> fst (RestartIO_readFromFile 6 (io_AB\<lparr>bodies := [bodyA 7, bodyB 8]\<rparr>) 5
        (RestartIO_writeToFile 6 io_AB 5 world0)) = Returned ()
   \<and> bodies (fst (snd (RestartIO_readFromFile 6 (io_AB\<lparr>bodies := [bodyA 7, bodyB 8]\<rparr>) 5
        (RestartIO_writeToFile 6 io_AB 5 world0)))) = [bodyA 1, bodyB 2]"
proof -
  have c: "RestartIO env0 [\<lparr>getName = ''A'', particles = 1\<rparr>, \<lparr>getName = ''B'', particles = 2\<rparr>]
             = Some io_AB"
    using ctor_AB by (simp add: bodyA_def bodyB_def)
  show ?thesis
    using RestartIO_two_bodies [OF c refl, where w = world0 and a' = "bodyA 7" and b' = "bodyB 8"] c
    by (simp add: env0_def world0_def bodyA_def bodyB_def)
qed

section \<open>ReloadParticleIO\<close>


lemma reload_write_step:
  "i < length (bodies io) \<Longrightarrow>
   ReloadParticleIO_writeToFile_loop io k i w =
     ReloadParticleIO_writeToFile_loop io k (Suc i)
       (writeToXmlForReloadParticle (bodies io ! i) (file_names io ! i)
          (if fs_exists (file_names io ! i) w then fs_remove (file_names io ! i) w else w))"
  by (subst ReloadParticleIO_writeToFile_loop.simps) (simp add: Let_def)

lemma reload_write_done:
  "\<not> i < length (bodies io) \<Longrightarrow> ReloadParticleIO_writeToFile_loop io k i w = w"
  by (subst ReloadParticleIO_writeToFile_loop.simps) simp

lemma reload_read_step:
  "i < length (bodies io) \<Longrightarrow> fs_exists (file_names io ! i) w \<Longrightarrow>
   ReloadParticleIO_readFromFile_loop io k i w =
     ReloadParticleIO_readFromFile_loop
       (io\<lparr>bodies := (bodies io)[i := fst (readFromXmlForReloadParticle (bodies io ! i)
                                             (file_names io ! i) w)]\<rparr>)
       k (Suc i) (w\<lparr>fs_log := fs_log w @ [(Read, file_names io ! i)]\<rparr>)"
  by (subst ReloadParticleIO_readFromFile_loop.simps)
    (simp add: readFromXmlForReloadParticle_def Let_def)

lemma reload_read_exit:
  "i < length (bodies io) \<Longrightarrow> \<not> fs_exists (file_names io ! i) w \<Longrightarrow>
   ReloadParticleIO_readFromFile_loop io k i w =
     (Exited 1, io, cout_print (missing_file_message (file_names io ! i) 148) w)"
  by (subst ReloadParticleIO_readFromFile_loop.simps) (simp add: Let_def)

lemma reload_read_done:
  "\<not> i < length (bodies io) \<Longrightarrow>
   ReloadParticleIO_readFromFile_loop io k i w = (Returned (), io, w)"
  by (subst ReloadParticleIO_readFromFile_loop.simps) simp

lemma reload_write_step_unused:
  "ReloadParticleIO_writeToFile_loop io k i w = ReloadParticleIO_writeToFile_loop io k' i w"
proof (induction "length (bodies io) - i" arbitrary: i w)
  case 0
  then show ?case by (simp add: reload_write_done)
next
  case (Suc d)
  then have lt: "i < length (bodies io)" and d: "d = length (bodies io) - Suc i" by simp_all
  show ?case
    unfolding reload_write_step [OF lt] by (rule Suc.hyps(1) [OF d])
qed

lemma reload_read_step_unused:
  "ReloadParticleIO_readFromFile_loop io k i w = ReloadParticleIO_readFromFile_loop io k' i w"
proof (induction "length (bodies io) - i" arbitrary: i io w)
  case 0
  then show ?case by (simp add: reload_read_done)
next
  case (Suc d)
  then have lt: "i < length (bodies io)" by simp
  show ?case
  proof (cases "fs_exists (file_names io ! i) w")
    case True
    show ?thesis
      unfolding reload_read_step [OF lt True]
      using Suc.hyps(2) by (intro Suc.hyps(1)) simp
  next
    case False
    show ?thesis
      unfolding reload_read_exit [OF lt False] ..
  qed
qed

lemma reload_write_body_log:
  "fs_log (writeToXmlForReloadParticle b p (if fs_exists p w then fs_remove p w else w))
     = fs_log w @ (if fs_exists p w then [(Remove, p)] else []) @ [(Write, p)]"
  by (simp add: writeToXmlForReloadParticle_def fs_remove_def)

lemma reload_write_touched:
  "snd ` set (fs_log (ReloadParticleIO_writeToFile_loop io k i w))
     \<subseteq> snd ` set (fs_log w) \<union> (!) (file_names io) ` {i..<length (bodies io)}"
proof (induction "length (bodies io) - i" arbitrary: i w)
  case 0
  then show ?case by (simp add: reload_write_done)
next
  case (Suc d)
  then have lt: "i < length (bodies io)" and d: "d = length (bodies io) - Suc i" by simp_all
  define w1 where "w1 = writeToXmlForReloadParticle (bodies io ! i) (file_names io ! i)
          (if fs_exists (file_names io ! i) w then fs_remove (file_names io ! i) w else w)"
  have step: "ReloadParticleIO_writeToFile_loop io k i w
                = ReloadParticleIO_writeToFile_loop io k (Suc i) w1"
    unfolding w1_def by (rule reload_write_step [OF lt])
  have IH: "snd ` set (fs_log (ReloadParticleIO_writeToFile_loop io k (Suc i) w1))
     \<subseteq> snd ` set (fs_log w1) \<union> (!) (file_names io) ` {Suc i..<length (bodies io)}"
    by (rule Suc.hyps(1) [OF d])
  have one: "snd ` set (fs_log w1) \<subseteq> snd ` set (fs_log w) \<union> {file_names io ! i}"
    unfolding w1_def reload_write_body_log by auto
  have "{i..<length (bodies io)} = insert i {Suc i..<length (bodies io)}"
    using lt by auto
  then have img: "(!) (file_names io) ` {i..<length (bodies io)}
      = insert (file_names io ! i) ((!) (file_names io) ` {Suc i..<length (bodies io)})"
    by simp
  show ?case
    unfolding step img using IH one by blast
qed

lemma reload_read_touched:
  "snd ` set (fs_log (snd (snd (ReloadParticleIO_readFromFile_loop io k i w))))
     \<subseteq> snd ` set (fs_log w) \<union> (!) (file_names io) ` {i..<length (bodies io)}"
proof (induction "length (bodies io) - i" arbitrary: i io w)
  case 0
  then show ?case by (simp add: reload_read_done)
next
  case (Suc d)
  then have lt: "i < length (bodies io)" by simp
  show ?case
  proof (cases "fs_exists (file_names io ! i) w")
    case True
    define io1 where "io1 = io\<lparr>bodies := (bodies io)[i := fst (readFromXmlForReloadParticle
                                (bodies io ! i) (file_names io ! i) w)]\<rparr>"
    define w1 where "w1 = w\<lparr>fs_log := fs_log w @ [(Read, file_names io ! i)]\<rparr>"
    have step: "ReloadParticleIO_readFromFile_loop io k i w
                  = ReloadParticleIO_readFromFile_loop io1 k (Suc i) w1"
      unfolding io1_def w1_def by (rule reload_read_step [OF lt True])
    have same: "file_names io1 = file_names io" "length (bodies io1) = length (bodies io)"
      by (simp_all add: io1_def)
    have "snd ` set (fs_log (snd (snd (ReloadParticleIO_readFromFile_loop io1 k (Suc i) w1))))
     \<subseteq> snd ` set (fs_log w1) \<union> (!) (file_names io1) ` {Suc i..<length (bodies io1)}"
      using Suc.hyps(2) by (intro Suc.hyps(1)) (simp add: same)
    then have IH: "snd ` set (fs_log (snd (snd (ReloadParticleIO_readFromFile_loop io1 k (Suc i) w1))))
     \<subseteq> snd ` set (fs_log w1) \<union> (!) (file_names io) ` {Suc i..<length (bodies io)}"
      by (simp only: same)
    have one: "snd ` set (fs_log w1) \<subseteq> snd ` set (fs_log w) \<union> {file_names io ! i}"
      by (auto simp: w1_def)
    have "{i..<length (bodies io)} = insert i {Suc i..<length (bodies io)}"
      using lt by auto
    then have img: "(!) (file_names io) ` {i..<length (bodies io)}
      = insert (file_names io ! i) ((!) (file_names io) ` {Suc i..<length (bodies io)})"
      by simp
    show ?thesis
      unfolding step img using IH one by blast
  next
    case False
    show ?thesis
      unfolding reload_read_exit [OF lt False] by (simp add: cout_print_def)
  qed
qed

lemma reload_write_body_written:
  "written_paths (fs_log (writeToXmlForReloadParticle b p
       (if fs_exists p w then fs_remove p w else w)))
     = written_paths (fs_log w) @ [p]"
  by (simp add: written_paths_def writeToXmlForReloadParticle_def fs_remove_def)

lemma reload_write_body_dom:
  "dom (files (writeToXmlForReloadParticle b p (if fs_exists p w then fs_remove p w else w)))
     = insert p (dom (files w))"
  by (auto simp: writeToXmlForReloadParticle_def fs_remove_def)

lemma reload_write_written:
  "written_paths (fs_log (ReloadParticleIO_writeToFile_loop io k i w))
     = written_paths (fs_log w) @ map ((!) (file_names io)) [i..<length (bodies io)]"
proof (induction "length (bodies io) - i" arbitrary: i w)
  case 0
  then show ?case by (simp add: reload_write_done)
next
  case (Suc d)
  then have lt: "i < length (bodies io)" and d: "d = length (bodies io) - Suc i" by simp_all
  have "[i..<length (bodies io)] = i # [Suc i..<length (bodies io)]"
    using lt by (simp add: upt_conv_Cons)
  then show ?case
    unfolding reload_write_step [OF lt] Suc.hyps(1) [OF d] reload_write_body_written by simp
qed

lemma reload_write_dom:
  "dom (files (ReloadParticleIO_writeToFile_loop io k i w))
     = dom (files w) \<union> (!) (file_names io) ` {i..<length (bodies io)}"
proof (induction "length (bodies io) - i" arbitrary: i w)
  case 0
  then show ?case by (simp add: reload_write_done)
next
  case (Suc d)
  then have lt: "i < length (bodies io)" and d: "d = length (bodies io) - Suc i" by simp_all
  have "{i..<length (bodies io)} = insert i {Suc i..<length (bodies io)}"
    using lt by auto
  then show ?case
    unfolding reload_write_step [OF lt] Suc.hyps(1) [OF d] reload_write_body_dom by simp
qed

lemma reloaded_body_later:
  "i < j \<Longrightarrow>
   reloaded_body (io\<lparr>bodies := (bodies io)[i := b]\<rparr>) (w\<lparr>fs_log := l\<rparr>) j = reloaded_body io w j"
  by (simp add: reloaded_body_def readFromXmlForReloadParticle_def)

lemma reloaded_body_cout: "reloaded_body io (cout_print t w) j = reloaded_body io w j"
  by (simp add: reloaded_body_def readFromXmlForReloadParticle_def cout_print_def)

lemma reload_read_prefix:
  "i \<le> m \<Longrightarrow> m \<le> length (bodies io) \<Longrightarrow>
   \<forall>j. i \<le> j \<and> j < m \<longrightarrow> fs_exists (file_names io ! j) w \<Longrightarrow>
   ReloadParticleIO_readFromFile_loop io k i w =
     ReloadParticleIO_readFromFile_loop
       (io\<lparr>bodies := take i (bodies io) @ map (reloaded_body io w) [i..<m] @ drop m (bodies io)\<rparr>)
       k m (w\<lparr>fs_log := fs_log w @ map (\<lambda>j. (Read, file_names io ! j)) [i..<m]\<rparr>)"
proof (induction "m - i" arbitrary: i io w)
  case 0
  then have "i = m" by simp
  then show ?case by simp
next
  case (Suc d)
  then have im: "i < m" and lt: "i < length (bodies io)" by simp_all
  define b where "b = reloaded_body io w i"
  define io1 where "io1 = io\<lparr>bodies := (bodies io)[i := b]\<rparr>"
  define w1 where "w1 = w\<lparr>fs_log := fs_log w @ [(Read, file_names io ! i)]\<rparr>"
  have ex: "fs_exists (file_names io ! i) w"
    using Suc.prems im by simp
  have step: "ReloadParticleIO_readFromFile_loop io k i w
                = ReloadParticleIO_readFromFile_loop io1 k (Suc i) w1"
    unfolding io1_def w1_def b_def reloaded_body_def by (rule reload_read_step [OF lt ex])
  have same: "file_names io1 = file_names io" "length (bodies io1) = length (bodies io)"
    by (simp_all add: io1_def)
  have ex1: "\<forall>j. Suc i \<le> j \<and> j < m \<longrightarrow> fs_exists (file_names io1 ! j) w1"
    using Suc.prems(3) by (simp add: same w1_def)
  have IH: "ReloadParticleIO_readFromFile_loop io1 k (Suc i) w1 =
     ReloadParticleIO_readFromFile_loop
       (io1\<lparr>bodies := take (Suc i) (bodies io1) @ map (reloaded_body io1 w1) [Suc i..<m]
                         @ drop m (bodies io1)\<rparr>)
       k m (w1\<lparr>fs_log := fs_log w1 @ map (\<lambda>j. (Read, file_names io1 ! j)) [Suc i..<m]\<rparr>)"
    using Suc.hyps(2) Suc.prems(2) im ex1 by (intro Suc.hyps(1)) (simp_all add: same)
  have bodies_eq: "take (Suc i) (bodies io1) @ map (reloaded_body io1 w1) [Suc i..<m]
                    @ drop m (bodies io1)
        = take i (bodies io) @ map (reloaded_body io w) [i..<m] @ drop m (bodies io)"
  proof -
    have "take (Suc i) (bodies io1) = take i (bodies io) @ [b]"
      using lt by (simp add: io1_def take_Suc_conv_app_nth)
    moreover have "map (reloaded_body io1 w1) [Suc i..<m] = map (reloaded_body io w) [Suc i..<m]"
      unfolding io1_def w1_def by (rule map_cong) (simp_all add: reloaded_body_later)
    moreover have "drop m (bodies io1) = drop m (bodies io)"
      using im by (simp add: io1_def)
    moreover have "[i..<m] = i # [Suc i..<m]"
      using im by (simp add: upt_conv_Cons)
    ultimately show ?thesis by (simp add: b_def)
  qed
  have log_eq: "fs_log w1 @ map (\<lambda>j. (Read, file_names io1 ! j)) [Suc i..<m]
        = fs_log w @ map (\<lambda>j. (Read, file_names io ! j)) [i..<m]"
    using im by (simp add: same w1_def upt_conv_Cons)
  show ?case
    unfolding step IH bodies_eq log_eq by (simp add: io1_def w1_def)
qed

lemma reload_read_all:
  assumes "\<forall>j. j < length (bodies io) \<longrightarrow> fs_exists (file_names io ! j) w"
  shows "ReloadParticleIO_readFromFile_loop io k 0 w =
     (Returned (),
      io\<lparr>bodies := map (reloaded_body io w) [0..<length (bodies io)]\<rparr>,
      w\<lparr>fs_log := fs_log w @ map (\<lambda>j. (Read, file_names io ! j)) [0..<length (bodies io)]\<rparr>)"
proof -
  have "ReloadParticleIO_readFromFile_loop io k 0 w =
     ReloadParticleIO_readFromFile_loop
       (io\<lparr>bodies := take 0 (bodies io) @ map (reloaded_body io w) [0..<length (bodies io)]
                        @ drop (length (bodies io)) (bodies io)\<rparr>)
       k (length (bodies io))
       (w\<lparr>fs_log := fs_log w @ map (\<lambda>j. (Read, file_names io ! j)) [0..<length (bodies io)]\<rparr>)"
    using assms by (intro reload_read_prefix) auto
  then show ?thesis
    by (simp add: reload_read_done)
qed

lemma reload_read_missing:
  assumes "m < length (bodies io)"
    and "\<forall>j. j < m \<longrightarrow> fs_exists (file_names io ! j) w"
    and "\<not> fs_exists (file_names io ! m) w"
  shows "ReloadParticleIO_readFromFile_loop io k 0 w =
     (Exited 1,
      io\<lparr>bodies := map (reloaded_body io w) [0..<m] @ drop m (bodies io)\<rparr>,
      cout_print (missing_file_message (file_names io ! m) 148)
        (w\<lparr>fs_log := fs_log w @ map (\<lambda>j. (Read, file_names io ! j)) [0..<m]\<rparr>))"
proof -
  have "ReloadParticleIO_readFromFile_loop io k 0 w =
     ReloadParticleIO_readFromFile_loop
       (io\<lparr>bodies := take 0 (bodies io) @ map (reloaded_body io w) [0..<m] @ drop m (bodies io)\<rparr>)
       k m (w\<lparr>fs_log := fs_log w @ map (\<lambda>j. (Read, file_names io ! j)) [0..<m]\<rparr>)"
    using assms by (intro reload_read_prefix) auto
  also have "\<dots> = (Exited 1,
      io\<lparr>bodies := map (reloaded_body io w) [0..<m] @ drop m (bodies io)\<rparr>,
      cout_print (missing_file_message (file_names io ! m) 148)
        (w\<lparr>fs_log := fs_log w @ map (\<lambda>j. (Read, file_names io ! j)) [0..<m]\<rparr>))"
    using assms by (subst reload_read_exit) (simp_all add: fs_exists_def)
  finally show ?thesis .
qed

text \<open>
  Claim C6. The step argument of \<open>ReloadParticleIO\<close> is not used and each body's path
  is the file name the object holds for it: writing and reading give the same result for
  any two steps; the write writes exactly the file names of the bodies, in list order,
  and adds exactly them to the folder; the read, when every file exists, returns after
  reading exactly those file names in list order, each body restored from its own file,
  and otherwise ends the process at the first missing file name after reading the ones
  before it; no other path is touched.
\<close>


theorem ReloadParticleIO_step_unused:
  "ReloadParticleIO_writeToFile io k w = ReloadParticleIO_writeToFile io k' w
   \<and> ReloadParticleIO_readFromFile io k w = ReloadParticleIO_readFromFile io k' w
   \<and> snd ` set (fs_log (ReloadParticleIO_writeToFile io k w))
        \<subseteq> snd ` set (fs_log w) \<union> (!) (file_names io) ` {0..<length (bodies io)}
   \<and> snd ` set (fs_log (snd (snd (ReloadParticleIO_readFromFile io k w))))
        \<subseteq> snd ` set (fs_log w) \<union> (!) (file_names io) ` {0..<length (bodies io)}
   \<and> written_paths (fs_log (ReloadParticleIO_writeToFile io k w))
        = written_paths (fs_log w) @ map ((!) (file_names io)) [0..<length (bodies io)]
   \<and> dom (files (ReloadParticleIO_writeToFile io k w))
        = dom (files w) \<union> (!) (file_names io) ` {0..<length (bodies io)}
   \<and> ((\<forall>j<length (bodies io). fs_exists (file_names io ! j) w) \<longrightarrow>
        ReloadParticleIO_readFromFile io k w =
          (Returned (),
           io\<lparr>bodies := map (reloaded_body io w) [0..<length (bodies io)]\<rparr>,
           w\<lparr>cout := cout w @ [newline] @ '' Reloading particles from files.'' @ [newline],
             fs_log := fs_log w @ map (\<lambda>j. (Read, file_names io ! j)) [0..<length (bodies io)]\<rparr>))
   \<and> (m < length (bodies io) \<and> (\<forall>j<m. fs_exists (file_names io ! j) w)
          \<and> \<not> fs_exists (file_names io ! m) w \<longrightarrow>
        ReloadParticleIO_readFromFile io k w =
          (Exited 1,
           io\<lparr>bodies := map (reloaded_body io w) [0..<m] @ drop m (bodies io)\<rparr>,
           w\<lparr>cout := cout w @ [newline] @ '' Reloading particles from files.'' @ [newline]
                     @ missing_file_message (file_names io ! m) 148,
             fs_log := fs_log w @ map (\<lambda>j. (Read, file_names io ! j)) [0..<m]\<rparr>))"
proof -
  define w' where "w' = cout_print ([newline] @ '' Reloading particles from files.'' @ [newline]) w"
  have w'r: "reloaded_body io w' j = reloaded_body io w j" for j
    unfolding w'_def by (rule reloaded_body_cout)
  have w': "fs_log w' = fs_log w" "fs_exists p w' = fs_exists p w"
    "reloaded_body io w' = reloaded_body io w" for p
    using w'r by (auto simp: w'_def cout_print_def fs_exists_def)
  have rd: "ReloadParticleIO_readFromFile io k w = ReloadParticleIO_readFromFile_loop io k 0 w'"
    by (simp add: ReloadParticleIO_readFromFile_def w'_def)
  have same_w: "ReloadParticleIO_writeToFile io k w = ReloadParticleIO_writeToFile io k' w"
    unfolding ReloadParticleIO_writeToFile_def by (rule reload_write_step_unused)
  have same_r: "ReloadParticleIO_readFromFile io k w = ReloadParticleIO_readFromFile io k' w"
    unfolding ReloadParticleIO_readFromFile_def by (rule reload_read_step_unused)
  have touch_w: "snd ` set (fs_log (ReloadParticleIO_writeToFile io k w))
        \<subseteq> snd ` set (fs_log w) \<union> (!) (file_names io) ` {0..<length (bodies io)}"
    unfolding ReloadParticleIO_writeToFile_def by (rule reload_write_touched)
  have touch_r: "snd ` set (fs_log (snd (snd (ReloadParticleIO_readFromFile io k w))))
        \<subseteq> snd ` set (fs_log w) \<union> (!) (file_names io) ` {0..<length (bodies io)}"
    unfolding rd using reload_read_touched [of io k 0 w'] by (simp only: w')
  have written: "written_paths (fs_log (ReloadParticleIO_writeToFile io k w))
        = written_paths (fs_log w) @ map ((!) (file_names io)) [0..<length (bodies io)]"
    unfolding ReloadParticleIO_writeToFile_def by (rule reload_write_written)
  have dom: "dom (files (ReloadParticleIO_writeToFile io k w))
        = dom (files w) \<union> (!) (file_names io) ` {0..<length (bodies io)}"
    unfolding ReloadParticleIO_writeToFile_def by (rule reload_write_dom)
  have all: "ReloadParticleIO_readFromFile io k w =
          (Returned (),
           io\<lparr>bodies := map (reloaded_body io w) [0..<length (bodies io)]\<rparr>,
           w\<lparr>cout := cout w @ [newline] @ '' Reloading particles from files.'' @ [newline],
             fs_log := fs_log w @ map (\<lambda>j. (Read, file_names io ! j)) [0..<length (bodies io)]\<rparr>)"
    if "\<forall>j<length (bodies io). fs_exists (file_names io ! j) w"
  proof -
    have "\<forall>j. j < length (bodies io) \<longrightarrow> fs_exists (file_names io ! j) w'"
      using that by (simp add: w')
    then have "ReloadParticleIO_readFromFile_loop io k 0 w' =
     (Returned (),
      io\<lparr>bodies := map (reloaded_body io w') [0..<length (bodies io)]\<rparr>,
      w'\<lparr>fs_log := fs_log w' @ map (\<lambda>j. (Read, file_names io ! j)) [0..<length (bodies io)]\<rparr>)"
      by (rule reload_read_all)
    then show ?thesis
      unfolding rd by (simp add: w') (simp add: w'_def cout_print_def)
  qed
  have missing: "ReloadParticleIO_readFromFile io k w =
          (Exited 1,
           io\<lparr>bodies := map (reloaded_body io w) [0..<m] @ drop m (bodies io)\<rparr>,
           w\<lparr>cout := cout w @ [newline] @ '' Reloading particles from files.'' @ [newline]
                     @ missing_file_message (file_names io ! m) 148,
             fs_log := fs_log w @ map (\<lambda>j. (Read, file_names io ! j)) [0..<m]\<rparr>)"
    if "m < length (bodies io)" "\<forall>j<m. fs_exists (file_names io ! j) w"
       "\<not> fs_exists (file_names io ! m) w"
  proof -
    have "ReloadParticleIO_readFromFile_loop io k 0 w' =
     (Exited 1,
      io\<lparr>bodies := map (reloaded_body io w') [0..<m] @ drop m (bodies io)\<rparr>,
      cout_print (missing_file_message (file_names io ! m) 148)
        (w'\<lparr>fs_log := fs_log w' @ map (\<lambda>j. (Read, file_names io ! j)) [0..<m]\<rparr>))"
      using that by (intro reload_read_missing) (simp_all add: w')
    then show ?thesis
      unfolding rd by (simp add: w') (simp add: w'_def cout_print_def)
  qed
  show ?thesis
    using same_w same_r touch_w touch_r written dom all missing by blast
qed

theorem ReloadParticleIO_step_unused_witness:
  "ReloadParticleIO env0 [bodyA 1, bodyB 2] = Some rld_AB
   \<and> written_paths (fs_log (ReloadParticleIO_writeToFile rld_AB 3 world0))
       = [''reload/A_rld.xml'', ''reload/B_rld.xml'']
   \<and> fs_exists (file_names rld_AB ! 0) (ReloadParticleIO_writeToFile rld_AB 3 world0)
   \<and> fs_exists (file_names rld_AB ! 1) (ReloadParticleIO_writeToFile rld_AB 3 world0)
   \<and> fst (ReloadParticleIO_readFromFile rld_AB 9 (ReloadParticleIO_writeToFile rld_AB 3 world0))
       = Returned ()
   \<and> fs_log (snd (snd (ReloadParticleIO_readFromFile rld_AB 9
         (ReloadParticleIO_writeToFile rld_AB 3 world0))))
       = fs_log (ReloadParticleIO_writeToFile rld_AB 3 world0)
           @ [(Read, ''reload/A_rld.xml''), (Read, ''reload/B_rld.xml'')]
   \<and> \<not> fs_exists (file_names rld_AB ! 0) world0
   \<and> fst (ReloadParticleIO_readFromFile rld_AB 9 world0) = Exited 1"
proof -
  define w1 where "w1 = ReloadParticleIO_writeToFile rld_AB 3 world0"
  have ctor: "ReloadParticleIO env0 [bodyA 1, bodyB 2] = Some rld_AB"
    by (simp add: ReloadParticleIO_def env0_def rld_AB_def bodyA_def bodyB_def)
  have len: "length (bodies rld_AB) = Suc (Suc 0)"
    and names: "file_names rld_AB ! 0 = ''reload/A_rld.xml''"
      "file_names rld_AB ! Suc 0 = ''reload/B_rld.xml''"
    by (simp_all add: rld_AB_def)
  have upt: "[0..<Suc (Suc 0)] = [0, Suc 0]" by (simp add: upt_conv_Cons)
  have none: "\<not> fs_exists p world0" for p
    by (simp add: fs_exists_def world0_def)
  have log0: "written_paths (fs_log world0) = []"
    by (simp add: written_paths_def world0_def)
  note wr = ReloadParticleIO_step_unused [where io = rld_AB and k = 3 and w = world0]
  have written: "written_paths (fs_log w1) = [''reload/A_rld.xml'', ''reload/B_rld.xml'']"
    unfolding w1_def using wr by (simp add: len upt names log0)
  have "dom (files w1) = dom (files world0) \<union> (!) (file_names rld_AB) ` {0..<length (bodies rld_AB)}"
    unfolding w1_def using wr by blast
  then have ex: "\<forall>j<length (bodies rld_AB). fs_exists (file_names rld_AB ! j) w1"
    by (auto simp: fs_exists_def)
  have "ReloadParticleIO_readFromFile rld_AB 9 w1 =
          (Returned (),
           rld_AB\<lparr>bodies := map (reloaded_body rld_AB w1) [0..<length (bodies rld_AB)]\<rparr>,
           w1\<lparr>cout := cout w1 @ [newline] @ '' Reloading particles from files.'' @ [newline],
             fs_log := fs_log w1 @ map (\<lambda>j. (Read, file_names rld_AB ! j))
                                     [0..<length (bodies rld_AB)]\<rparr>)"
    using ReloadParticleIO_step_unused [where io = rld_AB and k = 9 and w = w1] ex by blast
  then have read: "fst (ReloadParticleIO_readFromFile rld_AB 9 w1) = Returned ()"
    "fs_log (snd (snd (ReloadParticleIO_readFromFile rld_AB 9 w1)))
       = fs_log w1 @ [(Read, ''reload/A_rld.xml''), (Read, ''reload/B_rld.xml'')]"
    by (simp_all add: len upt names)
  have "fst (ReloadParticleIO_readFromFile rld_AB 9 world0) = Exited 1"
    using ReloadParticleIO_step_unused [where io = rld_AB and k = 9 and w = world0 and m = 0]
      none [of "file_names rld_AB ! 0"]
    by (simp add: len)
  moreover have "fs_exists (file_names rld_AB ! 0) w1" "fs_exists (file_names rld_AB ! 1) w1"
    using ex by (simp_all add: len)
  ultimately show ?thesis
    using ctor written read none unfolding w1_def by blast
qed

text \<open>
  Claim C7. A \<open>ReloadParticleIO\<close> constructed for a body with a given name holds the
  single path made of the reload folder, the given name and the suffix _rld.xml, and
  writes the body's snapshot there; a second one constructed with the same given name
  over any other body reads that file: the read returns and the other body has the
  written state.
\<close>

theorem ReloadParticleIO_cross_name:
  "file_names (ReloadParticleIO_named env a n) = [reload_folder env @ ''/'' @ n @ ''_rld.xml'']
   \<and> files (ReloadParticleIO_writeToFile (ReloadParticleIO_named env a n) k w)
        (reload_folder env @ ''/'' @ n @ ''_rld.xml'') = Some (Xml (particles a))
   \<and> fst (ReloadParticleIO_readFromFile (ReloadParticleIO_named env b n) k'
        (ReloadParticleIO_writeToFile (ReloadParticleIO_named env a n) k w)) = Returned ()
   \<and> bodies (fst (snd (ReloadParticleIO_readFromFile (ReloadParticleIO_named env b n) k'
        (ReloadParticleIO_writeToFile (ReloadParticleIO_named env a n) k w))))
       = [b\<lparr>particles := particles a\<rparr>]"
proof -
  let ?p = "reload_folder env @ ''/'' @ n @ ''_rld.xml''"
  let ?ioa = "ReloadParticleIO_named env a n"
  let ?iob = "ReloadParticleIO_named env b n"
  have fa: "file_names ?ioa = [?p]" "bodies ?ioa = [a]"
    by (simp_all add: ReloadParticleIO_named_def)
  have fb: "file_names ?iob = [?p]" "bodies ?iob = [b]"
    by (simp_all add: ReloadParticleIO_named_def)
  have la: "0 < length (bodies ?ioa)" "\<not> Suc 0 < length (bodies ?ioa)" by (simp_all add: fa)
  have w1: "ReloadParticleIO_writeToFile ?ioa k w
      = writeToXmlForReloadParticle a ?p (if fs_exists ?p w then fs_remove ?p w else w)"
    unfolding ReloadParticleIO_writeToFile_def reload_write_step [OF la(1)]
      reload_write_done [OF la(2)] by (simp add: fa)
  have snap: "files (ReloadParticleIO_writeToFile ?ioa k w) ?p = Some (Xml (particles a))"
    unfolding w1 by (simp add: writeToXmlForReloadParticle_def)
  define w' where "w' = cout_print ([newline] @ '' Reloading particles from files.'' @ [newline])
                          (ReloadParticleIO_writeToFile ?ioa k w)"
  have snap': "files w' ?p = Some (Xml (particles a))"
    using snap by (simp add: w'_def cout_print_def)
  have lb: "0 < length (bodies ?iob)" by (simp add: fb)
  have ex: "fs_exists (file_names ?iob ! 0) w'"
    using snap' by (simp add: fb fs_exists_def)
  have "ReloadParticleIO_readFromFile ?iob k' (ReloadParticleIO_writeToFile ?ioa k w)
      = ReloadParticleIO_readFromFile_loop ?iob k' 0 w'"
    by (simp add: ReloadParticleIO_readFromFile_def w'_def)
  also have "\<dots> = (Returned (),
       ?iob\<lparr>bodies := [b\<lparr>particles := particles a\<rparr>]\<rparr>,
       w'\<lparr>fs_log := fs_log w' @ [(Read, ?p)]\<rparr>)"
    unfolding reload_read_step [OF lb ex]
    using snap' by (subst reload_read_done) (simp_all add: fb readFromXmlForReloadParticle_def)
  finally show ?thesis
    using snap fa by simp
qed

end
